theory Spec2Isabelle
  imports Main "HOL-Library.Sublist" "HOL-Library.Product_Lexorder"
begin

section \<open>Strings\<close>

text \<open>
  Python \<open>str\<close> values are modelled as \<^typ>\<open>string\<close>, a list of 8-bit characters.
  Text outside ASCII is carried as its UTF-8 bytes; substring search and replacement on
  UTF-8 bytes agree with the same operations on code points. \<open>str.lower\<close>,
  \<open>str.isspace\<close> and the regular-expression classes \<open>\d\<close> and \<open>\s\<close> are modelled on
  the ASCII range, where they are Python's: \<open>A\<close> to \<open>Z\<close> are the letters with a lower
  case of their own, codes 9 to 13 and 28 to 32 are the whitespace, \<open>0\<close> to \<open>9\<close> are the
  digits. Python also lower-cases letters outside ASCII and also counts some code points
  outside ASCII as whitespace or as digits; the model does not, so a property that
  depends on these operations is stated for ASCII strings (\<open>ascii\<close> below).
\<close>

definition ascii :: "string \<Rightarrow> bool" where
  "ascii s = list_all (\<lambda>c. (of_char c :: nat) < 128) s"

definition char_lower :: "char \<Rightarrow> char" where
  "char_lower c =
     (let n = (of_char c :: nat) in if 65 \<le> n \<and> n \<le> 90 then char_of (n + 32) else c)"

definition lower :: "string \<Rightarrow> string" where
  "lower s = map char_lower s"

definition isspace :: "char \<Rightarrow> bool" where
  "isspace c =
     (let n = (of_char c :: nat) in (9 \<le> n \<and> n \<le> 13) \<or> (28 \<le> n \<and> n \<le> 32))"

text \<open>\<open>a in b\<close> on two strings: \<open>a\<close> occurs in \<open>b\<close> as a contiguous block.\<close>

definition str_in :: "string \<Rightarrow> string \<Rightarrow> bool" where
  "str_in a b = sublist a b"

text \<open>
  \<open>s.split()\<close> without arguments: the maximal runs of non-whitespace characters, in
  order; \<open>cur\<close> is the run being read (reversed).
\<close>

fun split_ws :: "string \<Rightarrow> string \<Rightarrow> string list" where
  "split_ws cur [] = (if cur = [] then [] else [rev cur])"
| "split_ws cur (c # cs) =
     (if isspace c then (if cur = [] then split_ws [] cs else rev cur # split_ws [] cs)
      else split_ws (c # cur) cs)"

definition split :: "string \<Rightarrow> string list" where
  "split s = split_ws [] s"

text \<open>\<open>sep.join(parts)\<close>.\<close>

fun join :: "string \<Rightarrow> string list \<Rightarrow> string" where
  "join sep [] = []"
| "join sep [p] = p"
| "join sep (p # q # ps) = p @ sep @ join sep (q # ps)"

text \<open>
  \<open>s.replace(old, new)\<close>: every non-overlapping occurrence of \<open>old\<close>, scanning from the
  left. \<open>skip\<close> counts the characters of a matched occurrence still to be passed over.
  With an empty \<open>old\<close> Python inserts \<open>new\<close> before every character and at the end.
\<close>

fun replace_scan :: "string \<Rightarrow> string \<Rightarrow> nat \<Rightarrow> string \<Rightarrow> string" where
  "replace_scan old new skip [] = []"
| "replace_scan old new (Suc k) (c # cs) = replace_scan old new k cs"
| "replace_scan old new 0 (c # cs) =
     (if prefix old (c # cs) then new @ replace_scan old new (length old - 1) cs
      else c # replace_scan old new 0 cs)"

definition replace :: "string \<Rightarrow> string \<Rightarrow> string \<Rightarrow> string" where
  "replace old new s =
     (if old = [] then new @ concat (map (\<lambda>c. c # new) s) else replace_scan old new 0 s)"

section \<open>Location classifier (utils/helpers.py)\<close>

text \<open>
  The substitution table of \<open>normalize_location\<close>, in the insertion order of the
  dictionary literal. The two keys outside ASCII are written as their UTF-8 bytes.
\<close>

definition mappings :: "(string \<times> string) list" where
  "mappings =
     [(''United Arab Emirates'', ''UAE''),
      (''U.A.E.'', ''UAE''),
      (''Deutschland'', ''Germany''),
      (''Espa'' @ [char_of (195::nat), char_of (177::nat)] @ ''a'', ''Spain''),
      (''Polska'', ''Poland''),
      (''Nederland'', ''Netherlands''),
      ([char_of (195::nat), char_of (137::nat)] @ ''ire'', ''Ireland'')]"

definition normalize_location :: "string \<Rightarrow> string" where
  "normalize_location location =
     (if location = [] then []
      else fold (\<lambda>(old, new) loc. replace old new loc) mappings (join '' '' (split location)))"

definition eu_countries :: "string list" where
  "eu_countries =
     [''Austria'', ''Belgium'', ''Bulgaria'', ''Croatia'', ''Cyprus'',
      ''Czech Republic'', ''Czechia'', ''Denmark'', ''Estonia'', ''Finland'',
      ''France'', ''Germany'', ''Greece'', ''Hungary'', ''Ireland'',
      ''Italy'', ''Latvia'', ''Lithuania'', ''Luxembourg'', ''Malta'',
      ''Netherlands'', ''Poland'', ''Portugal'', ''Romania'', ''Slovakia'',
      ''Slovenia'', ''Spain'', ''Sweden'']"

definition is_eu_location :: "string \<Rightarrow> bool" where
  "is_eu_location location =
     (let location_lower = lower location
      in list_ex (\<lambda>country. str_in (lower country) location_lower) eu_countries)"

definition uae_indicators :: "string list" where
  "uae_indicators = [''uae'', ''dubai'', ''abu dhabi'', ''sharjah'', ''united arab emirates'']"

definition is_uae_location :: "string \<Rightarrow> bool" where
  "is_uae_location location =
     (let location_lower = lower location
      in list_ex (\<lambda>indicator. str_in indicator location_lower) uae_indicators)"

section \<open>Exceptions and datetimes\<close>

text \<open>
  What a Python call can raise: an instance of a subclass of \<open>Exception\<close> (three that
  the code below raises by name, and any other, named by its class), or an instance of a
  class that derives from \<open>BaseException\<close> but not from \<open>Exception\<close>, named by its class
  (\<open>KeyboardInterrupt\<close>, \<open>SystemExit\<close>, \<open>GeneratorExit\<close> or any other such class).
  \<open>except Exception\<close> catches the former and not the latter.
\<close>

datatype py_exc =
    TypeError
  | OverflowError
  | ValueError
  | OtherException string
  | NotAnException string

fun is_Exception :: "py_exc \<Rightarrow> bool" where
  "is_Exception (NotAnException cls) = False"
| "is_Exception e = True"

text \<open>
  A \<open>datetime\<close> is a count of microseconds since 0001-01-01T00:00:00. A naive value
  carries wall-clock time without a zone (what \<open>datetime.now()\<close> returns); an aware value
  carries a UTC offset (what \<open>datetime.fromisoformat\<close> returns for a string with an offset)
  and is held as its UTC instant. The valid range is year 1 to year 9999.
\<close>

datatype datetime = Naive int | Aware int

definition us_per_day :: int where
  "us_per_day = 86400000000"

definition datetime_max :: int where
  "datetime_max = 3652059 * us_per_day"

text \<open>
  \<open>timedelta(...)\<close> for a duration given in microseconds: the number of whole days must
  stay within 999999999 in magnitude.
\<close>

definition timedelta :: "int \<Rightarrow> py_exc + int" where
  "timedelta us =
     (if us div us_per_day < - 999999999 \<or> 999999999 < us div us_per_day
      then Inl OverflowError else Inr us)"

text \<open>\<open>datetime.now() - delta\<close>: the result must be a valid date.\<close>

definition now_minus :: "int \<Rightarrow> int \<Rightarrow> py_exc + datetime" where
  "now_minus now delta =
     (if now - delta < 0 \<or> datetime_max \<le> now - delta then Inl OverflowError
      else Inr (Naive (now - delta)))"

text \<open>The value \<open>days_since_posted\<close> returns: an \<open>int\<close>, or \<open>float('inf')\<close>.\<close>

datatype age = Days int | Infinity

text \<open>
  \<open>days_since_posted\<close> (utils/helpers.py); \<open>now\<close> is the reading of \<open>datetime.now()\<close>.
  Subtracting an aware datetime from the naive \<open>now\<close> raises \<open>TypeError\<close>. The \<open>days\<close>
  attribute of a \<open>timedelta\<close> is the floor of the difference in days (a normalised
  \<open>timedelta\<close> keeps its seconds and microseconds non-negative).
\<close>

definition days_since_posted :: "int \<Rightarrow> datetime option \<Rightarrow> py_exc + age" where
  "days_since_posted now posted =
     (case posted of
        None \<Rightarrow> Inr Infinity
      | Some (Naive t) \<Rightarrow> Inr (Days ((now - t) div us_per_day))
      | Some (Aware t) \<Rightarrow> Inl TypeError)"

text \<open>\<open>age > max_age_days\<close>, where \<open>age\<close> may be \<open>float('inf')\<close>.\<close>

fun age_gt :: "age \<Rightarrow> int \<Rightarrow> bool" where
  "age_gt Infinity n = True"
| "age_gt (Days d) n = (n < d)"

section \<open>Jobs and the shared pipeline (scrapers/base_scraper.py)\<close>

text \<open>
  The dataclass \<open>Job\<close>. Its field \<open>id\<close> is \<open>job_id\<close> here and its field \<open>keywords\<close> is
  \<open>job_keywords\<close>.
\<close>

record job =
  job_id :: string
  title :: string
  company :: string
  location :: string
  description :: string
  url :: string
  posted_date :: "datetime option"
  requirements :: "string list"
  job_keywords :: "string list"
  is_eu :: bool
  is_uae :: bool
  scraped_at :: datetime

text \<open>
  The constructor \<open>Job(...)\<close> with its defaults; \<open>now\<close> is the reading of
  \<open>datetime.now\<close> that \<open>scraped_at\<close> defaults to.
\<close>

definition Job ::
  "int \<Rightarrow> string \<Rightarrow> string \<Rightarrow> string \<Rightarrow> string \<Rightarrow> string \<Rightarrow> string \<Rightarrow> datetime option \<Rightarrow>
   string list \<Rightarrow> job"
where
  "Job now i t c l d u p reqs =
     \<lparr>job_id = i, title = t, company = c, location = l, description = d, url = u,
      posted_date = p, requirements = reqs, job_keywords = [], is_eu = False, is_uae = False,
      scraped_at = Naive now\<rparr>"

text \<open>The two filtering criteria \<open>BaseScraper.__init__\<close> reads from the configuration.\<close>

record config =
  job_titles :: "string list"
  max_age_days :: int

definition title_match :: "config \<Rightarrow> job \<Rightarrow> bool" where
  "title_match cfg j = list_ex (\<lambda>t. str_in (lower t) (lower (title j))) (job_titles cfg)"

text \<open>The age check of the loop body: whether the job is skipped as too old.\<close>

definition too_old :: "config \<Rightarrow> int \<Rightarrow> job \<Rightarrow> py_exc + bool" where
  "too_old cfg now j =
     (case posted_date j of
        None \<Rightarrow> Inr False
      | Some d \<Rightarrow>
          (case days_since_posted now (Some d) of
             Inl e \<Rightarrow> Inl e
           | Inr a \<Rightarrow> Inr (age_gt a (max_age_days cfg))))"

text \<open>The statements under \<open># Mark EU/UAE status\<close>: two assignments to the job object.\<close>

definition mark_status :: "job \<Rightarrow> job" where
  "mark_status j =
     (let normalized_location = normalize_location (location j)
      in j\<lparr>is_eu := is_eu_location normalized_location,
            is_uae := is_uae_location normalized_location\<rparr>)"

text \<open>
  One iteration of the loop of \<open>filter_jobs\<close>: whether the job is appended to
  \<open>filtered\<close>, and the state of the job object after the iteration.
\<close>

definition filter_step :: "config \<Rightarrow> int \<Rightarrow> job \<Rightarrow> py_exc + (bool \<times> job)" where
  "filter_step cfg now j =
     (if \<not> title_match cfg j then Inr (False, j)
      else
        (case too_old cfg now j of
           Inl e \<Rightarrow> Inl e
         | Inr True \<Rightarrow> Inr (False, j)
         | Inr False \<Rightarrow> Inr (True, mark_status j)))"

text \<open>
  The loop: the list \<open>filtered\<close> (or the exception that ended the loop), paired with the
  states of all the job objects of the input, in input order, when the loop ends. The
  clock is read once for each dated job with a matching title; \<open>now\<close> stands for these
  readings.
\<close>

fun filter_loop :: "config \<Rightarrow> int \<Rightarrow> job list \<Rightarrow> (py_exc + job list) \<times> job list" where
  "filter_loop cfg now [] = (Inr [], [])"
| "filter_loop cfg now (j # js) =
     (case filter_step cfg now j of
        Inl e \<Rightarrow> (Inl e, j # js)
      | Inr (keep, j') \<Rightarrow>
          (case filter_loop cfg now js of
             (Inl e, post) \<Rightarrow> (Inl e, j' # post)
           | (Inr filtered, post) \<Rightarrow>
               (Inr (if keep then j' # filtered else filtered), j' # post)))"

text \<open>
  \<open>filtered.sort(key=lambda j: (not j.is_eu, not j.is_uae))\<close>: Python's sort is stable
  and compares the key tuples lexicographically, with \<open>False < True\<close>.
\<close>

definition sort_jobs :: "job list \<Rightarrow> job list" where
  "sort_jobs filtered = sort_key (\<lambda>j. (\<not> is_eu j, \<not> is_uae j)) filtered"

definition filter_jobs :: "config \<Rightarrow> int \<Rightarrow> job list \<Rightarrow> (py_exc + job list) \<times> job list" where
  "filter_jobs cfg now jobs =
     (case filter_loop cfg now jobs of
        (Inl e, post) \<Rightarrow> (Inl e, post)
      | (Inr filtered, post) \<Rightarrow> (Inr (sort_jobs filtered), post))"

text \<open>
  The parse loop of \<open>scrape\<close>. \<open>parse_job\<close> is the adapter's method: it returns a job,
  returns \<open>None\<close>, or raises.
\<close>

fun parse_loop :: "('raw \<Rightarrow> py_exc + job option) \<Rightarrow> 'raw list \<Rightarrow> py_exc + job list" where
  "parse_loop parse_job [] = Inr []"
| "parse_loop parse_job (raw_job # rest) =
     (case parse_job raw_job of
        Inl e \<Rightarrow> Inl e
      | Inr parsed \<Rightarrow>
          (case parse_loop parse_job rest of
             Inl e \<Rightarrow> Inl e
           | Inr jobs \<Rightarrow> Inr (case parsed of None \<Rightarrow> jobs | Some j \<Rightarrow> j # jobs)))"

text \<open>The body of the \<open>try\<close> block of \<open>scrape\<close>; \<open>fetch_jobs\<close> is the outcome of the call.\<close>

definition scrape_body ::
  "config \<Rightarrow> int \<Rightarrow> (py_exc + 'raw list) \<Rightarrow> ('raw \<Rightarrow> py_exc + job option) \<Rightarrow> py_exc + job list"
where
  "scrape_body cfg now fetch_jobs parse_job =
     (case fetch_jobs of
        Inl e \<Rightarrow> Inl e
      | Inr raw_jobs \<Rightarrow>
          (case parse_loop parse_job raw_jobs of
             Inl e \<Rightarrow> Inl e
           | Inr jobs \<Rightarrow> fst (filter_jobs cfg now jobs)))"

text \<open>\<open>scrape\<close>: \<open>except Exception\<close> turns the exception into an empty list.\<close>

definition scrape ::
  "config \<Rightarrow> int \<Rightarrow> (py_exc + 'raw list) \<Rightarrow> ('raw \<Rightarrow> py_exc + job option) \<Rightarrow> py_exc + job list"
where
  "scrape cfg now fetch_jobs parse_job =
     (case scrape_body cfg now fetch_jobs parse_job of
        Inl e \<Rightarrow> (if is_Exception e then Inr [] else Inl e)
      | Inr filtered_jobs \<Rightarrow> Inr filtered_jobs)"

section \<open>The job store (database/job_store.py)\<close>

text \<open>
  A row of the table \<open>jobs\<close>: the columns of \<open>JobModel\<close>, which are the fields of a job
  followed by the four columns the store keeps for itself. The list columns hold the JSON
  text of a list of strings; the row keeps the list it encodes.
\<close>

record job_model = job +
  notified :: bool
  notified_at :: datetime
  resume_generated :: bool
  resume_path :: "string option"

text \<open>
  The store: the committed rows of the table, in insertion order, and the objects added
  to the session but not yet committed (\<open>session.new\<close>). Between two calls the session
  holds no such object; queries read the committed rows.
\<close>

record store =
  rows :: "job_model list"
  session_new :: "job_model list"

text \<open>
  What the storage layer does during one call of \<open>add_job\<close>: nothing goes wrong, the
  query raises, or the commit raises. The errors of the storage layer are subclasses of
  \<open>Exception\<close>, named by the string.
\<close>

datatype db_fault = NoFault | QueryFault string | CommitFault string

text \<open>
  The row built by \<open>JobModel(...)\<close> in \<open>add_job\<close>, with the column defaults applied:
  \<open>notified\<close> and \<open>resume_generated\<close> false, \<open>notified_at\<close> the current time,
  \<open>resume_path\<close> null. \<open>job_data\<close> is the dictionary \<open>Job.to_dict\<close> produces, held as
  the job it was made from: parsing the ISO strings gives the datetimes back.
\<close>

definition JobModel :: "int \<Rightarrow> job \<Rightarrow> job_model" where
  "JobModel now job_data =
     \<lparr>job_id = job_id job_data, title = title job_data, company = company job_data,
      location = location job_data, description = description job_data, url = url job_data,
      posted_date = posted_date job_data, requirements = requirements job_data,
      job_keywords = job_keywords job_data, is_eu = is_eu job_data, is_uae = is_uae job_data,
      scraped_at = scraped_at job_data,
      notified = False, notified_at = Naive now, resume_generated = False, resume_path = None\<rparr>"

definition session_commit :: "store \<Rightarrow> store" where
  "session_commit s = \<lparr>rows = rows s @ session_new s, session_new = []\<rparr>"

definition session_rollback :: "store \<Rightarrow> store" where
  "session_rollback s = s\<lparr>session_new := []\<rparr>"

text \<open>
  The \<open>try\<close> block of \<open>add_job\<close>: its result or the exception that ended it, and the
  store at that point.
\<close>

definition add_job_try :: "db_fault \<Rightarrow> int \<Rightarrow> job \<Rightarrow> store \<Rightarrow> (py_exc + bool) \<times> store" where
  "add_job_try fault now job_data s =
     (case fault of
        QueryFault err \<Rightarrow> (Inl (OtherException err), s)
      | _ \<Rightarrow>
          (case find (\<lambda>r. job_id r = job_id job_data) (rows s) of
             Some existing \<Rightarrow> (Inr False, s)
           | None \<Rightarrow>
               (let s' = s\<lparr>session_new := session_new s @ [JobModel now job_data]\<rparr>
                in case fault of
                     CommitFault err \<Rightarrow> (Inl (OtherException err), s')
                   | _ \<Rightarrow> (Inr True, session_commit s'))))"

text \<open>\<open>add_job\<close>: on an exception, roll the session back and raise it again.\<close>

definition add_job :: "db_fault \<Rightarrow> int \<Rightarrow> job \<Rightarrow> store \<Rightarrow> (py_exc + bool) \<times> store" where
  "add_job fault now job_data s =
     (case add_job_try fault now job_data s of
        (Inl e, s') \<Rightarrow>
          (if is_Exception e then (Inl e, session_rollback s') else (Inl e, s'))
      | (Inr inserted, s') \<Rightarrow> (Inr inserted, s'))"

text \<open>\<open>add_jobs\<close>; \<open>io\<close> gives what the storage layer does while a given job is added.\<close>

fun add_jobs :: "(job \<Rightarrow> db_fault) \<Rightarrow> int \<Rightarrow> job list \<Rightarrow> store \<Rightarrow> (py_exc + nat) \<times> store" where
  "add_jobs io now [] s = (Inr 0, s)"
| "add_jobs io now (j # js) s =
     (case add_job (io j) now j s of
        (Inl e, s') \<Rightarrow> (Inl e, s')
      | (Inr inserted, s') \<Rightarrow>
          (case add_jobs io now js s' of
             (Inl e, s'') \<Rightarrow> (Inl e, s'')
           | (Inr added, s'') \<Rightarrow> (Inr ((if inserted then 1 else 0) + added), s'')))"

definition get_unnotified_jobs :: "store \<Rightarrow> job_model list" where
  "get_unnotified_jobs s = filter (\<lambda>r. \<not> notified r) (rows s)"

text \<open>\<open>mark_as_notified\<close>; \<open>now\<close> is the reading of \<open>datetime.now()\<close>.\<close>

definition mark_as_notified :: "int \<Rightarrow> string list \<Rightarrow> store \<Rightarrow> store" where
  "mark_as_notified now job_ids s =
     s\<lparr>rows := map (\<lambda>r. if job_id r \<in> set job_ids
                           then r\<lparr>notified := True, notified_at := Naive now\<rparr> else r) (rows s)\<rparr>"

text \<open>Apply \<open>f\<close> to the first element that satisfies \<open>P\<close>: what \<open>.first()\<close> selects.\<close>

fun update_first :: "('a \<Rightarrow> bool) \<Rightarrow> ('a \<Rightarrow> 'a) \<Rightarrow> 'a list \<Rightarrow> 'a list" where
  "update_first P f [] = []"
| "update_first P f (x # xs) = (if P x then f x # xs else x # update_first P f xs)"

definition mark_resume_generated :: "string \<Rightarrow> string \<Rightarrow> store \<Rightarrow> store" where
  "mark_resume_generated i path s =
     s\<lparr>rows := update_first (\<lambda>r. job_id r = i)
                  (\<lambda>r. r\<lparr>resume_generated := True, resume_path := Some path\<rparr>) (rows s)\<rparr>"

text \<open>
  The dictionary of \<open>get_stats\<close>; its keys \<open>notified\<close> and \<open>pending\<close> are \<open>notified_jobs\<close>
  and \<open>pending_jobs\<close> here.
\<close>

record stats =
  total_jobs :: nat
  eu_jobs :: nat
  uae_jobs :: nat
  notified_jobs :: nat
  pending_jobs :: nat
  resumes_generated :: nat

definition get_stats :: "store \<Rightarrow> stats" where
  "get_stats s =
     \<lparr>total_jobs = length (rows s),
      eu_jobs = length (filter (\<lambda>r. is_eu r) (rows s)),
      uae_jobs = length (filter (\<lambda>r. is_uae r) (rows s)),
      notified_jobs = length (filter (\<lambda>r. notified r) (rows s)),
      pending_jobs = length (filter (\<lambda>r. \<not> notified r) (rows s)),
      resumes_generated = length (filter (\<lambda>r. resume_generated r) (rows s))\<rparr>"

definition empty_store :: store where
  "empty_store = \<lparr>rows = [], session_new = []\<rparr>"

section \<open>Relative dates (scrapers/linkedin_scraper.py, scrapers/google_scraper.py)\<close>

definition isdigit :: "char \<Rightarrow> bool" where
  "isdigit c = (let n = (of_char c :: nat) in 48 \<le> n \<and> n \<le> 57)"

text \<open>\<open>int(...)\<close> on a string of decimal digits.\<close>

definition int_of_digits :: "string \<Rightarrow> int" where
  "int_of_digits ds = foldl (\<lambda>acc c. 10 * acc + (int (of_char c) - 48)) 0 ds"

text \<open>
  The regular expression \<open>(\d+)\s*(u1|u2|...)s?\s*ago\<close>, for a list of units none of which
  starts with a digit, a blank or the first letter of another. \<open>match_here\<close> matches it at
  the start of a string and returns the two groups. Each greedy part takes all it can:
  giving a character back leaves a digit, a blank or an \<open>s\<close> in front of a part that
  cannot start with it, so backtracking finds no further match.
\<close>

fun match_unit :: "string list \<Rightarrow> string \<Rightarrow> (string \<times> string) option" where
  "match_unit [] s = None"
| "match_unit (u # us) s = (if prefix u s then Some (u, drop (length u) s) else match_unit us s)"

definition match_here :: "string list \<Rightarrow> string \<Rightarrow> (string \<times> string) option" where
  "match_here units s =
     (let ds = takeWhile isdigit s
      in if ds = [] then None
         else
           (case match_unit units (dropWhile isspace (dropWhile isdigit s)) of
              None \<Rightarrow> None
            | Some (u, r) \<Rightarrow>
                (let r' = (case r of [] \<Rightarrow> [] | c # cs \<Rightarrow> if c = CHR ''s'' then cs else c # cs)
                 in if prefix ''ago'' (dropWhile isspace r') then Some (ds, u) else None)))"

text \<open>\<open>re.search\<close>: the match at the leftmost position that has one.\<close>

fun re_search :: "string list \<Rightarrow> string \<Rightarrow> (string \<times> string) option" where
  "re_search units [] = None"
| "re_search units (c # cs) =
     (case match_here units (c # cs) of
        Some m \<Rightarrow> Some m
      | None \<Rightarrow> re_search units cs)"

definition us_per_hour :: int where
  "us_per_hour = 3600000000"

text \<open>\<open>datetime.now() - timedelta(...)\<close>, for a duration in microseconds.\<close>

definition ago :: "int \<Rightarrow> int \<Rightarrow> py_exc + datetime option" where
  "ago now us =
     (case timedelta us of
        Inl e \<Rightarrow> Inl e
      | Inr delta \<Rightarrow> (case now_minus now delta of Inl e \<Rightarrow> Inl e | Inr d \<Rightarrow> Inr (Some d)))"

text \<open>The \<open>try\<close> block of \<open>LinkedInScraper._parse_relative_date\<close>.\<close>

definition linkedin_parse_relative_date_try :: "int \<Rightarrow> string \<Rightarrow> py_exc + datetime option" where
  "linkedin_parse_relative_date_try now date_str =
     (let date_lower = lower date_str
      in if str_in ''just now'' date_lower \<or> str_in ''today'' date_lower then Inr (Some (Naive now))
         else
           (case re_search [''day'', ''week'', ''month'', ''hour''] date_lower of
              Some (g1, unit) \<Rightarrow>
                (let num = int_of_digits g1
                 in if unit = ''hour'' then ago now (num * us_per_hour)
                    else if unit = ''day'' then ago now (num * us_per_day)
                    else if unit = ''week'' then ago now (num * 7 * us_per_day)
                    else if unit = ''month'' then ago now (num * 30 * us_per_day)
                    else Inr None)
            | None \<Rightarrow> Inr None))"

text \<open>\<open>LinkedInScraper._parse_relative_date\<close>: any exception gives \<open>None\<close>.\<close>

definition linkedin_parse_relative_date :: "int \<Rightarrow> string \<Rightarrow> datetime option" where
  "linkedin_parse_relative_date now date_str =
     (case linkedin_parse_relative_date_try now date_str of Inl e \<Rightarrow> None | Inr d \<Rightarrow> d)"

text \<open>The \<open>try\<close> block of \<open>GoogleScraper._parse_date\<close>.\<close>

definition google_parse_date_try :: "int \<Rightarrow> string \<Rightarrow> py_exc + datetime option" where
  "google_parse_date_try now date_str =
     (let date_lower = lower date_str
      in if str_in ''today'' date_lower \<or> str_in ''just'' date_lower then Inr (Some (Naive now))
         else if str_in ''yesterday'' date_lower then ago now (1 * us_per_day)
         else
           (case re_search [''day'', ''week'', ''month''] date_lower of
              Some (g1, unit) \<Rightarrow>
                (let num = int_of_digits g1
                 in if unit = ''day'' then ago now (num * us_per_day)
                    else if unit = ''week'' then ago now (num * 7 * us_per_day)
                    else if unit = ''month'' then ago now (num * 30 * us_per_day)
                    else Inr None)
            | None \<Rightarrow> Inr None))"

text \<open>\<open>GoogleScraper._parse_date\<close>: any exception gives \<open>None\<close>.\<close>

definition google_parse_date :: "int \<Rightarrow> string \<Rightarrow> datetime option" where
  "google_parse_date now date_str =
     (case google_parse_date_try now date_str of Inl e \<Rightarrow> None | Inr d \<Rightarrow> d)"

section \<open>Definitions used to state the properties\<close>

text \<open>
  The three-tier stable partition as the specification words it: the EU jobs, then the
  UAE jobs among the rest, then the others, each tier in its original order.
\<close>

definition spec_three_tiers :: "job list \<Rightarrow> job list" where
  "spec_three_tiers xs =
     filter (\<lambda>j. is_eu j) xs @ filter (\<lambda>j. \<not> is_eu j \<and> is_uae j) xs
       @ filter (\<lambda>j. \<not> is_eu j \<and> \<not> is_uae j) xs"

text \<open>
  The age in whole days as the specification words it: the difference truncated, that
  is, rounded towards zero.
\<close>

definition spec_days_truncated :: "int \<Rightarrow> int \<Rightarrow> int" where
  "spec_days_truncated now t = sgn (now - t) * (\<bar>now - t\<bar> div us_per_day)"

text \<open>The decimal numeral of a natural number, as \<open>str\<close> writes it.\<close>

fun decimal :: "nat \<Rightarrow> string" where
  "decimal n =
     (if n < 10 then [char_of (48 + n)] else decimal (n div 10) @ [char_of (48 + n mod 10)])"

declare decimal.simps [simp del]

text \<open>
  The relative phrases that follow the number, with the duration of one unit in
  microseconds; a month is counted as 30 days.
\<close>

definition hour_forms :: "(string \<times> int) list" where
  "hour_forms = [('' hour ago'', us_per_hour), ('' hours ago'', us_per_hour)]"

definition relative_forms :: "(string \<times> int) list" where
  "relative_forms =
     [('' day ago'', us_per_day), ('' days ago'', us_per_day),
      ('' week ago'', 7 * us_per_day), ('' weeks ago'', 7 * us_per_day),
      ('' month ago'', 30 * us_per_day), ('' months ago'', 30 * us_per_day)]"

text \<open>
  Now minus a duration, as a parser returns it: absent when the result would lie before
  the first representable date.
\<close>

definition spec_ago :: "int \<Rightarrow> int \<Rightarrow> datetime option" where
  "spec_ago now us = (if us \<le> now then Some (Naive (now - us)) else None)"

text \<open>The configuration with the single title \<open>Data Engineer\<close> and the default age limit.\<close>

definition data_engineer :: config where
  "data_engineer = \<lparr>job_titles = [''Data Engineer''], max_age_days = 30\<rparr>"

text \<open>A job as an adapter builds it from an identifier, a title, a location and a date.\<close>

definition posting :: "string \<Rightarrow> string \<Rightarrow> string \<Rightarrow> datetime option \<Rightarrow> job" where
  "posting i t l p = Job 0 i t ''Acme'' l [] [] p []"

section \<open>Properties of the location classifier\<close>

subsection \<open>Splitting at whitespace\<close>







subsection \<open>Replacement\<close>








subsection \<open>The classifiers\<close>










section \<open>Properties of the shared pipeline\<close>

subsection \<open>The sort\<close>

lemma sorted_key_tiers:
  fixes f :: "'a \<Rightarrow> bool \<times> bool"
  shows "sorted (map f ys) \<Longrightarrow>
    ys = filter (\<lambda>y. f y = (False, False)) ys @ filter (\<lambda>y. f y = (False, True)) ys
       @ filter (\<lambda>y. f y = (True, False)) ys @ filter (\<lambda>y. f y = (True, True)) ys"
proof (induction ys)
  case Nil
  then show ?case by simp
next
  case (Cons y ys)
  then have le: "\<forall>z\<in>set ys. f y \<le> f z" and s: "sorted (map f ys)" by auto
  note IH = Cons.IH[OF s]
  obtain a b where fy: "f y = (a, b)" by (cases "f y")
  show ?case
  proof (cases a)
    case aT: True
    show ?thesis
    proof (cases b)
      case True
      with aT fy le have "\<forall>z\<in>set ys. f z = (True, True)"
        by (auto simp: less_eq_prod_def prod_eq_iff)
      then have "filter (\<lambda>y. f y = (False, False)) ys = []"
        "filter (\<lambda>y. f y = (False, True)) ys = []"
        "filter (\<lambda>y. f y = (True, False)) ys = []"
        by (auto simp: filter_empty_conv)
      with IH aT True fy show ?thesis by simp
    next
      case False
      with aT fy le have "\<forall>z\<in>set ys. fst (f z)"
        by (auto simp: less_eq_prod_def)
      then have "filter (\<lambda>y. f y = (False, False)) ys = []"
        "filter (\<lambda>y. f y = (False, True)) ys = []"
        by (auto simp: filter_empty_conv)
      with IH aT False fy show ?thesis by simp
    qed
  next
    case aF: False
    show ?thesis
    proof (cases b)
      case True
      with aF fy le have "\<forall>z\<in>set ys. f z \<noteq> (False, False)"
        by (auto simp: less_eq_prod_def prod_eq_iff)
      then have "filter (\<lambda>y. f y = (False, False)) ys = []"
        by (auto simp: filter_empty_conv)
      with IH aF True fy show ?thesis by simp
    next
      case False
      with IH aF fy show ?thesis by simp
    qed
  qed
qed

lemma sort_jobs_tiers:
  "sort_jobs xs =
     filter (\<lambda>j. is_eu j \<and> is_uae j) xs @ filter (\<lambda>j. is_eu j \<and> \<not> is_uae j) xs
       @ filter (\<lambda>j. \<not> is_eu j \<and> is_uae j) xs @ filter (\<lambda>j. \<not> is_eu j \<and> \<not> is_uae j) xs"
proof -
  let ?f = "\<lambda>j. (\<not> is_eu j, \<not> is_uae j)"
  have "sorted (map ?f (sort_jobs xs))" by (simp add: sort_jobs_def)
  from sorted_key_tiers[OF this]
  have "sort_jobs xs =
      filter (\<lambda>y. ?f y = (False, False)) (sort_jobs xs)
    @ filter (\<lambda>y. ?f y = (False, True)) (sort_jobs xs)
    @ filter (\<lambda>y. ?f y = (True, False)) (sort_jobs xs)
    @ filter (\<lambda>y. ?f y = (True, True)) (sort_jobs xs)" .
  also have "\<dots> = filter (\<lambda>y. ?f y = (False, False)) xs @ filter (\<lambda>y. ?f y = (False, True)) xs
    @ filter (\<lambda>y. ?f y = (True, False)) xs @ filter (\<lambda>y. ?f y = (True, True)) xs"
    unfolding sort_jobs_def by (simp only: sort_key_stable)
  finally show ?thesis by simp
qed

lemma mark_status_examples:
  "mark_status (posting ''a'' ''Data Engineer'' ''New York'' None)
     = posting ''a'' ''Data Engineer'' ''New York'' None"
  "mark_status (posting ''b'' ''Data Engineer'' ''Berlin, Germany'' None)
     = (posting ''b'' ''Data Engineer'' ''Berlin, Germany'' None)\<lparr>is_eu := True\<rparr>"
  "mark_status (posting ''c'' ''Data Engineer'' ''Dubai'' None)
     = (posting ''c'' ''Data Engineer'' ''Dubai'' None)\<lparr>is_uae := True\<rparr>"
  "mark_status (posting ''d'' ''Data Engineer'' ''Paris, France'' None)
     = (posting ''d'' ''Data Engineer'' ''Paris, France'' None)\<lparr>is_eu := True\<rparr>"
  "mark_status (posting ''e'' ''Data Engineer'' ''Dubai or Berlin, Germany'' None)
     = (posting ''e'' ''Data Engineer'' ''Dubai or Berlin, Germany'' None)
         \<lparr>is_eu := True, is_uae := True\<rparr>"
  by code_simp+

lemma posting_simps:
  "job_id (posting i t l p) = i" "title (posting i t l p) = t"
  "location (posting i t l p) = l" "posted_date (posting i t l p) = p"
  "is_eu (posting i t l p) = False" "is_uae (posting i t l p) = False"
  by (simp_all add: posting_def Job_def)

lemma lower_data_engineer: "lower ''Data Engineer'' = ''data engineer''"
  by code_simp

lemma title_match_example: "title_match data_engineer (posting i ''Data Engineer'' l p)"
  by (simp add: title_match_def data_engineer_def posting_simps lower_data_engineer str_in_def)

lemma filter_step_undated:
  "filter_step data_engineer now (posting i ''Data Engineer'' l None)
     = Inr (True, mark_status (posting i ''Data Engineer'' l None))"
  by (simp add: filter_step_def title_match_example too_old_def posting_simps)

lemma filter_jobs_four:
  "fst (filter_jobs data_engineer now
     [posting ''a'' ''Data Engineer'' ''New York'' None,
      posting ''b'' ''Data Engineer'' ''Berlin, Germany'' None,
      posting ''c'' ''Data Engineer'' ''Dubai'' None,
      posting ''d'' ''Data Engineer'' ''Paris, France'' None])
   = Inr (sort_jobs
     [posting ''a'' ''Data Engineer'' ''New York'' None,
      (posting ''b'' ''Data Engineer'' ''Berlin, Germany'' None)\<lparr>is_eu := True\<rparr>,
      (posting ''c'' ''Data Engineer'' ''Dubai'' None)\<lparr>is_uae := True\<rparr>,
      (posting ''d'' ''Data Engineer'' ''Paris, France'' None)\<lparr>is_eu := True\<rparr>])"
  by (simp add: filter_jobs_def filter_step_undated mark_status_examples)

lemma filter_jobs_both:
  "fst (filter_jobs data_engineer now
     [posting ''b'' ''Data Engineer'' ''Berlin, Germany'' None,
      posting ''e'' ''Data Engineer'' ''Dubai or Berlin, Germany'' None])
   = Inr (sort_jobs
     [(posting ''b'' ''Data Engineer'' ''Berlin, Germany'' None)\<lparr>is_eu := True\<rparr>,
      (posting ''e'' ''Data Engineer'' ''Dubai or Berlin, Germany'' None)
         \<lparr>is_eu := True, is_uae := True\<rparr>])"
  by (simp add: filter_jobs_def filter_step_undated mark_status_examples)

text \<open>
  C2 (as stated, refuted). A posting whose location names both Dubai and Germany is
  marked EU and UAE at once by the filter, and the sort puts it in front of an EU posting
  that precedes it in the input: the EU tier does not keep its original order.
\<close>

theorem tiered_sort_counterexample:
  "fst (filter_jobs data_engineer 0
     [posting ''b'' ''Data Engineer'' ''Berlin, Germany'' None,
      posting ''e'' ''Data Engineer'' ''Dubai or Berlin, Germany'' None])
   = Inr [(posting ''e'' ''Data Engineer'' ''Dubai or Berlin, Germany'' None)
            \<lparr>is_eu := True, is_uae := True\<rparr>,
          (posting ''b'' ''Data Engineer'' ''Berlin, Germany'' None)\<lparr>is_eu := True\<rparr>]
   \<and> spec_three_tiers
       [(posting ''b'' ''Data Engineer'' ''Berlin, Germany'' None)\<lparr>is_eu := True\<rparr>,
        (posting ''e'' ''Data Engineer'' ''Dubai or Berlin, Germany'' None)
           \<lparr>is_eu := True, is_uae := True\<rparr>]
     = [(posting ''b'' ''Data Engineer'' ''Berlin, Germany'' None)\<lparr>is_eu := True\<rparr>,
        (posting ''e'' ''Data Engineer'' ''Dubai or Berlin, Germany'' None)
           \<lparr>is_eu := True, is_uae := True\<rparr>]"
  by (simp add: filter_jobs_both sort_jobs_tiers spec_three_tiers_def posting_simps)

text \<open>
  C2 (amended). The sort is stable on the key \<open>(not is_eu, not is_uae)\<close>, so it is a
  stable partition into four tiers: the jobs that are both EU and UAE, then the other EU
  jobs, then the other UAE jobs, then the rest, each tier in its original order. For a
  list in which no job is both EU and UAE this is the three-tier partition EU, UAE, other.
\<close>

theorem tiered_stable_sort:
  "sort_jobs xs =
     filter (\<lambda>j. is_eu j \<and> is_uae j) xs @ filter (\<lambda>j. is_eu j \<and> \<not> is_uae j) xs
       @ filter (\<lambda>j. \<not> is_eu j \<and> is_uae j) xs @ filter (\<lambda>j. \<not> is_eu j \<and> \<not> is_uae j) xs
   \<and> ((\<forall>j\<in>set xs. \<not> (is_eu j \<and> is_uae j)) \<longrightarrow> sort_jobs xs = spec_three_tiers xs)"
proof (intro conjI impI)
  show "sort_jobs xs =
     filter (\<lambda>j. is_eu j \<and> is_uae j) xs @ filter (\<lambda>j. is_eu j \<and> \<not> is_uae j) xs
       @ filter (\<lambda>j. \<not> is_eu j \<and> is_uae j) xs @ filter (\<lambda>j. \<not> is_eu j \<and> \<not> is_uae j) xs"
    by (rule sort_jobs_tiers)
next
  assume a: "\<forall>j\<in>set xs. \<not> (is_eu j \<and> is_uae j)"
  then have "filter (\<lambda>j. is_eu j \<and> is_uae j) xs = []" by (auto simp: filter_empty_conv)
  moreover from a have "filter (\<lambda>j. is_eu j \<and> \<not> is_uae j) xs = filter (\<lambda>j. is_eu j) xs"
    by (auto intro: filter_cong)
  ultimately show "sort_jobs xs = spec_three_tiers xs"
    by (simp add: sort_jobs_tiers spec_three_tiers_def)
qed

text \<open>
  The example of the specification: the postings A (New York), B (Berlin), C (Dubai) and
  D (Paris), in this order, leave the filter as B, D, C, A.
\<close>

theorem tiered_stable_sort_witness:
  "fst (filter_jobs data_engineer 0
     [posting ''a'' ''Data Engineer'' ''New York'' None,
      posting ''b'' ''Data Engineer'' ''Berlin, Germany'' None,
      posting ''c'' ''Data Engineer'' ''Dubai'' None,
      posting ''d'' ''Data Engineer'' ''Paris, France'' None])
   = Inr [(posting ''b'' ''Data Engineer'' ''Berlin, Germany'' None)\<lparr>is_eu := True\<rparr>,
          (posting ''d'' ''Data Engineer'' ''Paris, France'' None)\<lparr>is_eu := True\<rparr>,
          (posting ''c'' ''Data Engineer'' ''Dubai'' None)\<lparr>is_uae := True\<rparr>,
          posting ''a'' ''Data Engineer'' ''New York'' None]"
proof -
  let ?xs = "[posting ''a'' ''Data Engineer'' ''New York'' None,
      (posting ''b'' ''Data Engineer'' ''Berlin, Germany'' None)\<lparr>is_eu := True\<rparr>,
      (posting ''c'' ''Data Engineer'' ''Dubai'' None)\<lparr>is_uae := True\<rparr>,
      (posting ''d'' ''Data Engineer'' ''Paris, France'' None)\<lparr>is_eu := True\<rparr>]"
  have "\<forall>j\<in>set ?xs. \<not> (is_eu j \<and> is_uae j)"
    by (simp add: posting_simps)
  with tiered_stable_sort[of ?xs] have "sort_jobs ?xs = spec_three_tiers ?xs" by blast
  moreover have "spec_three_tiers ?xs =
        [(posting ''b'' ''Data Engineer'' ''Berlin, Germany'' None)\<lparr>is_eu := True\<rparr>,
          (posting ''d'' ''Data Engineer'' ''Paris, France'' None)\<lparr>is_eu := True\<rparr>,
          (posting ''c'' ''Data Engineer'' ''Dubai'' None)\<lparr>is_uae := True\<rparr>,
          posting ''a'' ''Data Engineer'' ''New York'' None]"
    by (simp add: spec_three_tiers_def posting_simps)
  ultimately show ?thesis
    by (simp only: filter_jobs_four)
qed

subsection \<open>The filter loop\<close>

lemma mark_status_eq:
  "mark_status j =
     j\<lparr>is_eu := is_eu_location (normalize_location (location j)),
       is_uae := is_uae_location (normalize_location (location j))\<rparr>"
  by (simp add: mark_status_def Let_def)

lemma too_old_cases:
  "too_old cfg now j =
     (case posted_date j of
        None \<Rightarrow> Inr False
      | Some (Naive t) \<Rightarrow> Inr (max_age_days cfg < (now - t) div us_per_day)
      | Some (Aware t) \<Rightarrow> Inl TypeError)"
  by (simp add: too_old_def days_since_posted_def split: option.splits datetime.splits)

lemma filter_step_keep_iff:
  "filter_step cfg now j = Inr (True, j') \<longleftrightarrow>
     title_match cfg j \<and> too_old cfg now j = Inr False \<and> j' = mark_status j"
  by (auto simp: filter_step_def split: sum.splits bool.splits)

lemma filter_step_drop_iff:
  "filter_step cfg now j = Inr (False, j') \<longleftrightarrow>
     (\<not> title_match cfg j \<or> too_old cfg now j = Inr True) \<and> j' = j"
  by (auto simp: filter_step_def split: sum.splits bool.splits)

lemma filter_step_raise_iff:
  "filter_step cfg now j = Inl e \<longleftrightarrow> title_match cfg j \<and> too_old cfg now j = Inl e"
  by (auto simp: filter_step_def split: sum.splits bool.splits)

lemma filter_loop_kept:
  "fst (filter_loop cfg now jobs) = Inr out \<Longrightarrow>
     out = map mark_status
             (filter (\<lambda>j. title_match cfg j \<and> too_old cfg now j = Inr False) jobs)"
proof (induction jobs arbitrary: out)
  case Nil
  then show ?case by simp
next
  case (Cons j js)
  from Cons.prems obtain keep j' where st: "filter_step cfg now j = Inr (keep, j')"
    by (cases "filter_step cfg now j") (auto split: prod.splits)
  from Cons.prems st obtain rest where rest: "fst (filter_loop cfg now js) = Inr rest"
    by (cases "filter_loop cfg now js") (auto split: sum.splits)
  note IH = Cons.IH[OF rest]
  from Cons.prems st rest have out: "out = (if keep then j' # rest else rest)"
    by (cases "filter_loop cfg now js") (auto split: sum.splits)
  show ?case
  proof (cases keep)
    case True
    with st have "title_match cfg j \<and> too_old cfg now j = Inr False \<and> j' = mark_status j"
      by (simp add: filter_step_keep_iff)
    with True out IH show ?thesis by simp
  next
    case False
    with st have "\<not> title_match cfg j \<or> too_old cfg now j = Inr True"
      by (simp add: filter_step_drop_iff)
    with False out IH show ?thesis by auto
  qed
qed

lemma filter_loop_post:
  "list_all2 (\<lambda>j j'. (j' = j \<or> j' = mark_status j)
                \<and> (\<not> (title_match cfg j \<and> too_old cfg now j = Inr False) \<longrightarrow> j' = j))
     jobs (snd (filter_loop cfg now jobs))"
proof (induction jobs)
  case Nil
  then show ?case by simp
next
  case (Cons j js)
  show ?case
  proof (cases "filter_step cfg now j")
    case (Inl e)
    then show ?thesis by (simp add: list_all2_same)
  next
    case (Inr r)
    obtain keep j' where r: "r = (keep, j')" by (cases r)
    have j': "(j' = j \<or> j' = mark_status j)
        \<and> (\<not> (title_match cfg j \<and> too_old cfg now j = Inr False) \<longrightarrow> j' = j)"
    proof (cases keep)
      case True
      with Inr r show ?thesis by (simp add: filter_step_keep_iff)
    next
      case False
      with Inr r show ?thesis by (simp add: filter_step_drop_iff)
    qed
    with Inr r Cons.IH show ?thesis
      by (cases "filter_loop cfg now js") (auto split: sum.splits)
  qed
qed

lemma filter_loop_returns:
  "\<forall>j\<in>set jobs. \<forall>t. posted_date j \<noteq> Some (Aware t) \<Longrightarrow>
     \<exists>out. fst (filter_loop cfg now jobs) = Inr out"
proof (induction jobs)
  case Nil
  then show ?case by simp
next
  case (Cons j js)
  then obtain rest where rest: "fst (filter_loop cfg now js) = Inr rest" by auto
  from Cons.prems have na: "\<forall>t. posted_date j \<noteq> Some (Aware t)" by simp
  have "\<exists>b. too_old cfg now j = Inr b"
  proof (cases "posted_date j")
    case None
    then show ?thesis by (auto simp: too_old_cases)
  next
    case (Some d)
    with na show ?thesis by (cases d) (auto simp: too_old_cases)
  qed
  then obtain b where "too_old cfg now j = Inr b" by blast
  then have "\<exists>r. filter_step cfg now j = Inr r"
    by (cases b) (auto simp: filter_step_def)
  then obtain r where "filter_step cfg now j = Inr r" by blast
  with rest show ?case
    by (cases "filter_loop cfg now js") (auto split: prod.splits)
qed

lemma filter_loop_raises:
  "fst (filter_loop cfg now jobs) = Inl e \<Longrightarrow> e = TypeError"
proof (induction jobs)
  case Nil
  then show ?case by simp
next
  case (Cons j js)
  show ?case
  proof (cases "filter_step cfg now j")
    case (Inl e')
    with Cons.prems have "e' = e" by simp
    with Inl show ?thesis
      by (auto simp: filter_step_raise_iff too_old_cases split: option.splits datetime.splits)
  next
    case (Inr r)
    with Cons.prems have "fst (filter_loop cfg now js) = Inl e"
      by (cases "filter_loop cfg now js") (auto split: prod.splits sum.splits)
    then show ?thesis by (rule Cons.IH)
  qed
qed

lemma filter_jobs_fst:
  "fst (filter_jobs cfg now jobs) =
     (case fst (filter_loop cfg now jobs) of Inl e \<Rightarrow> Inl e | Inr out \<Rightarrow> Inr (sort_jobs out))"
  by (cases "filter_loop cfg now jobs") (auto simp: filter_jobs_def split: sum.splits)

lemma filter_jobs_snd: "snd (filter_jobs cfg now jobs) = snd (filter_loop cfg now jobs)"
  by (cases "filter_loop cfg now jobs") (auto simp: filter_jobs_def split: sum.splits)

lemma filter_jobs_kept:
  assumes "fst (filter_jobs cfg now jobs) = Inr out"
  shows "out = sort_jobs (map mark_status
           (filter (\<lambda>j. title_match cfg j \<and> too_old cfg now j = Inr False) jobs))"
proof -
  from assms obtain kept where k: "fst (filter_loop cfg now jobs) = Inr kept"
    and out: "out = sort_jobs kept"
    by (auto simp: filter_jobs_fst split: sum.splits)
  from filter_loop_kept[OF k] out show ?thesis by simp
qed

lemma set_sort_jobs: "set (sort_jobs xs) = set xs"
  by (simp add: sort_jobs_def)

text \<open>
  C10. When \<open>filter_jobs\<close> ends, by returning or by raising, every job object of the input
  is either as it was or differs from its former state in \<open>is_eu\<close> and \<open>is_uae\<close> only, and
  a job that fails the title test or the age test is as it was. The list returned holds
  the kept jobs, each with these two fields assigned from its location and every other
  field, the raw location among them, as it was.
\<close>

theorem filter_frame:
  "list_all2 (\<lambda>j j'. (j' = j \<or> j' = mark_status j)
                \<and> (\<not> (title_match cfg j \<and> too_old cfg now j = Inr False) \<longrightarrow> j' = j))
     jobs (snd (filter_jobs cfg now jobs))
   \<and> (\<forall>out. fst (filter_jobs cfg now jobs) = Inr out \<longrightarrow>
        (\<forall>j'\<in>set out. \<exists>j\<in>set jobs. title_match cfg j \<and> too_old cfg now j = Inr False
            \<and> j' = mark_status j))
   \<and> mark_status j =
        j\<lparr>is_eu := is_eu_location (normalize_location (location j)),
          is_uae := is_uae_location (normalize_location (location j))\<rparr>
   \<and> location (mark_status j) = location j"
proof (intro conjI allI impI)
  show "list_all2 (\<lambda>j j'. (j' = j \<or> j' = mark_status j)
                \<and> (\<not> (title_match cfg j \<and> too_old cfg now j = Inr False) \<longrightarrow> j' = j))
     jobs (snd (filter_jobs cfg now jobs))"
    by (simp only: filter_jobs_snd filter_loop_post)
next
  fix out
  assume "fst (filter_jobs cfg now jobs) = Inr out"
  from filter_jobs_kept[OF this]
  show "\<forall>j'\<in>set out. \<exists>j\<in>set jobs. title_match cfg j \<and> too_old cfg now j = Inr False
            \<and> j' = mark_status j"
    by (auto simp: set_sort_jobs)
next
  show "mark_status j =
        j\<lparr>is_eu := is_eu_location (normalize_location (location j)),
          is_uae := is_uae_location (normalize_location (location j))\<rparr>"
    by (rule mark_status_eq)
  show "location (mark_status j) = location j"
    by (simp add: mark_status_eq)
qed

subsection \<open>The title and age tests\<close>

lemma title_match_iff:
  "title_match cfg j \<longleftrightarrow>
     (\<exists>t\<in>set (job_titles cfg). \<exists>pre post. lower (title j) = pre @ lower t @ post)"
  by (simp add: title_match_def list_ex_iff str_in_def sublist_def)

lemma us_per_day_pos: "0 < us_per_day"
  by (simp add: us_per_day_def)

lemma us_per_day_nz: "us_per_day \<noteq> 0"
  by (simp add: us_per_day_def)

lemma filter_jobs_naive:
  assumes "\<forall>j\<in>set jobs. \<forall>t. posted_date j \<noteq> Some (Aware t)"
  shows "fst (filter_jobs cfg now jobs) =
     Inr (sort_jobs (map mark_status
       (filter (\<lambda>j. title_match cfg j \<and> too_old cfg now j = Inr False) jobs)))"
proof -
  from filter_loop_returns[OF assms] obtain out
    where out: "fst (filter_loop cfg now jobs) = Inr out" by blast
  then have "fst (filter_jobs cfg now jobs) = Inr (sort_jobs out)"
    by (simp add: filter_jobs_fst)
  with filter_loop_kept[OF out] show ?thesis by simp
qed

text \<open>
  The filter on postings whose dates are naive or absent: it returns, and what it returns
  are the postings with a matching title that are undated or at most \<open>max_age_days\<close> whole
  days old, marked and sorted. For ASCII titles, a title matches when some configured
  title occurs in it, both in lower case. A posting dated exactly \<open>max_age_days\<close> days before now
  passes the age test, one dated a day earlier fails it, and an undated one passes it
  whatever the limit.
\<close>

theorem filter_keeps_matching_recent:
  "((\<forall>j\<in>set jobs. \<forall>t. posted_date j \<noteq> Some (Aware t)) \<longrightarrow>
      fst (filter_jobs cfg now jobs) =
        Inr (sort_jobs (map mark_status
          (filter (\<lambda>j. title_match cfg j \<and> too_old cfg now j = Inr False) jobs))))
   \<and> (ascii (title j) \<and> (\<forall>t\<in>set (job_titles cfg). ascii t) \<longrightarrow>
        (title_match cfg j \<longleftrightarrow>
          (\<exists>t\<in>set (job_titles cfg). \<exists>pre post. lower (title j) = pre @ lower t @ post)))
   \<and> (posted_date j = None \<longrightarrow> too_old cfg now j = Inr False)
   \<and> (posted_date j = Some (Naive t) \<longrightarrow>
        too_old cfg now j = Inr (max_age_days cfg < (now - t) div us_per_day))
   \<and> (posted_date j = Some (Naive (now - max_age_days cfg * us_per_day)) \<longrightarrow>
        too_old cfg now j = Inr False)
   \<and> (posted_date j = Some (Naive (now - (max_age_days cfg + 1) * us_per_day)) \<longrightarrow>
        too_old cfg now j = Inr True)"
proof (intro conjI impI)
  assume "\<forall>j\<in>set jobs. \<forall>t. posted_date j \<noteq> Some (Aware t)"
  then show "fst (filter_jobs cfg now jobs) =
        Inr (sort_jobs (map mark_status
          (filter (\<lambda>j. title_match cfg j \<and> too_old cfg now j = Inr False) jobs)))"
    by (rule filter_jobs_naive)
next
  show "title_match cfg j \<longleftrightarrow>
        (\<exists>t\<in>set (job_titles cfg). \<exists>pre post. lower (title j) = pre @ lower t @ post)"
    by (rule title_match_iff)
next
  assume "posted_date j = None"
  then show "too_old cfg now j = Inr False" by (simp add: too_old_cases)
next
  assume "posted_date j = Some (Naive t)"
  then show "too_old cfg now j = Inr (max_age_days cfg < (now - t) div us_per_day)"
    by (simp add: too_old_cases)
next
  assume "posted_date j = Some (Naive (now - max_age_days cfg * us_per_day))"
  then show "too_old cfg now j = Inr False"
    by (simp add: too_old_cases us_per_day_nz)
next
  assume "posted_date j = Some (Naive (now - (max_age_days cfg + 1) * us_per_day))"
  then show "too_old cfg now j = Inr True"
    by (simp add: too_old_cases us_per_day_nz)
qed

lemma lower_senior: "lower ''Senior Data Engineer II'' = ''senior data engineer ii''"
  by code_simp

lemma lower_scientist: "lower ''Data Scientist'' = ''data scientist''"
  by code_simp

lemma title_examples:
  "title_match data_engineer (posting i ''Senior Data Engineer II'' l p)"
  "\<not> title_match data_engineer (posting i ''Data Scientist'' l p)"
  by (simp_all add: title_match_def data_engineer_def posting_simps lower_data_engineer
      lower_senior lower_scientist str_in_def sublist_code)

theorem filter_keeps_matching_recent_witness:
  "fst (filter_jobs data_engineer (100 * us_per_day)
     [posting ''a'' ''Senior Data Engineer II'' ''Dubai'' (Some (Naive (70 * us_per_day))),
      posting ''b'' ''Senior Data Engineer II'' ''Dubai'' (Some (Naive (69 * us_per_day))),
      posting ''c'' ''Data Scientist'' ''Dubai'' None])
   = Inr (sort_jobs [mark_status (posting ''a'' ''Senior Data Engineer II'' ''Dubai''
        (Some (Naive (70 * us_per_day))))])"
proof -
  let ?a = "posting ''a'' ''Senior Data Engineer II'' ''Dubai'' (Some (Naive (70 * us_per_day)))"
  let ?b = "posting ''b'' ''Senior Data Engineer II'' ''Dubai'' (Some (Naive (69 * us_per_day)))"
  let ?c = "posting ''c'' ''Data Scientist'' ''Dubai'' None"
  have m: "max_age_days data_engineer = 30" by (simp add: data_engineer_def)
  have na: "\<forall>j\<in>set [?a, ?b, ?c]. \<forall>t. posted_date j \<noteq> Some (Aware t)"
    by (simp add: posting_simps)
  have a: "too_old data_engineer (100 * us_per_day) ?a = Inr False"
    using filter_keeps_matching_recent
      [of "[]" data_engineer "100 * us_per_day" ?a "70 * us_per_day"]
    by (simp add: posting_simps m us_per_day_nz)
  have b: "too_old data_engineer (100 * us_per_day) ?b = Inr True"
    using filter_keeps_matching_recent
      [of "[]" data_engineer "100 * us_per_day" ?b "69 * us_per_day"]
    by (simp add: posting_simps m us_per_day_nz)
  from na filter_keeps_matching_recent[of "[?a, ?b, ?c]" data_engineer "100 * us_per_day"]
  have "fst (filter_jobs data_engineer (100 * us_per_day) [?a, ?b, ?c]) =
        Inr (sort_jobs (map mark_status
          (filter (\<lambda>j. title_match data_engineer j
             \<and> too_old data_engineer (100 * us_per_day) j = Inr False) [?a, ?b, ?c])))"
    by blast
  then show ?thesis by (simp add: a b title_examples)
qed

text \<open>
  C3 (the code at the failing input). The LinkedIn adapter builds an aware datetime from
  an ISO string that carries an offset. For a posting with a matching title that is one
  day old and so dated, the age test raises \<open>TypeError\<close>: \<open>filter_jobs\<close> raises instead
  of keeping the posting, and \<open>scrape\<close> returns nothing for the whole source.
\<close>

theorem aware_posting_not_kept:
  "title_match data_engineer
     (posting ''k'' ''Data Engineer'' ''Dubai'' (Some (Aware (99 * us_per_day))))
   \<and> fst (filter_jobs data_engineer (100 * us_per_day)
        [posting ''k'' ''Data Engineer'' ''Dubai'' (Some (Aware (99 * us_per_day)))])
      = Inl TypeError
   \<and> fst (filter_jobs data_engineer (100 * us_per_day)
        [posting ''k'' ''Data Engineer'' ''Dubai'' (Some (Naive (99 * us_per_day)))])
      = Inr [mark_status (posting ''k'' ''Data Engineer'' ''Dubai''
               (Some (Naive (99 * us_per_day))))]
   \<and> scrape data_engineer (100 * us_per_day) (Inr [()])
        (\<lambda>raw. Inr (Some (posting ''k'' ''Data Engineer'' ''Dubai''
                            (Some (Aware (99 * us_per_day))))))
      = Inr []"
proof -
  have m: "max_age_days data_engineer = 30" by (simp add: data_engineer_def)
  show ?thesis
    by (simp add: title_match_example filter_jobs_def filter_step_def too_old_cases
        posting_simps scrape_def scrape_body_def m us_per_day_nz sort_jobs_def)
qed

text \<open>
  The frame property on two postings: the second fails the title test and is left as it
  was, and marking the first leaves its raw location in place.
\<close>

theorem filter_frame_witness:
  "snd (filter_jobs data_engineer 0
      [posting ''a'' ''Data Engineer'' ''  Berlin,  Deutschland'' None,
       posting ''c'' ''Data Scientist'' ''Dubai'' None]) ! 1
     = posting ''c'' ''Data Scientist'' ''Dubai'' None
   \<and> location (mark_status (posting ''a'' ''Data Engineer'' ''  Berlin,  Deutschland'' None))
     = ''  Berlin,  Deutschland''"
proof -
  let ?a = "posting ''a'' ''Data Engineer'' ''  Berlin,  Deutschland'' None"
  let ?c = "posting ''c'' ''Data Scientist'' ''Dubai'' None"
  let ?post = "snd (filter_jobs data_engineer 0 [?a, ?c])"
  note frame = filter_frame[where cfg = data_engineer and now = 0 and jobs = "[?a, ?c]"
      and j = ?a]
  from frame have "list_all2 (\<lambda>j j'. (j' = j \<or> j' = mark_status j)
        \<and> (\<not> (title_match data_engineer j \<and> too_old data_engineer 0 j = Inr False)
             \<longrightarrow> j' = j)) [?a, ?c] ?post"
    by blast
  then have "\<not> (title_match data_engineer ?c \<and> too_old data_engineer 0 ?c = Inr False)
      \<longrightarrow> ?post ! 1 = ?c"
    by (auto simp: list_all2_Cons1)
  then have "?post ! 1 = ?c" by (simp add: title_examples)
  moreover from frame have "location (mark_status ?a) = location ?a" by blast
  ultimately show ?thesis by (simp add: posting_simps)
qed

subsection \<open>The age of a posting\<close>

text \<open>
  C7 (as stated, refuted). For a posting dated one hour after now the difference is minus
  one hour: truncated to whole days it is 0, but \<open>days_since_posted\<close> returns -1.
\<close>

theorem days_since_counterexample:
  "days_since_posted (100 * us_per_day) (Some (Naive (100 * us_per_day + us_per_hour)))
     = Inr (Days (- 1))
   \<and> spec_days_truncated (100 * us_per_day) (100 * us_per_day + us_per_hour) = 0"
  by (simp add: days_since_posted_def spec_days_truncated_def us_per_day_def us_per_hour_def)

lemma floor_days_bounds:
  "((now - t) div us_per_day) * us_per_day \<le> now - t
   \<and> now - t < ((now - t) div us_per_day + 1) * us_per_day"
proof -
  have "0 < us_per_day" by (simp add: us_per_day_def)
  then have r: "0 \<le> (now - t) mod us_per_day" "(now - t) mod us_per_day < us_per_day"
    by simp_all
  have e: "(now - t) div us_per_day * us_per_day + (now - t) mod us_per_day = now - t"
    by (rule div_mult_mod_eq)
  have d: "((now - t) div us_per_day + 1) * us_per_day
      = (now - t) div us_per_day * us_per_day + us_per_day"
    by (simp add: distrib_right)
  from r e show ?thesis unfolding d by linarith
qed

lemma floor_is_truncation: "t \<le> now \<Longrightarrow> (now - t) div us_per_day = spec_days_truncated now t"
  by (cases "now = t") (simp_all add: spec_days_truncated_def)

lemma future_is_negative: "now < t \<Longrightarrow> (now - t) div us_per_day < 0"
  by (simp add: us_per_day_def div_neg_pos_less0)

lemma filter_step_naive:
  "posted_date j = Some (Naive t) \<Longrightarrow> \<exists>r. filter_step cfg now j = Inr r"
  by (cases "max_age_days cfg < (now - t) div us_per_day")
    (auto simp: filter_step_def too_old_cases)

lemma filter_step_future:
  assumes "title_match cfg j" "posted_date j = Some (Naive t)" "now < t" "0 \<le> max_age_days cfg"
  shows "filter_step cfg now j = Inr (True, mark_status j)"
proof -
  from future_is_negative[OF assms(3)] assms(4)
  have "\<not> max_age_days cfg < (now - t) div us_per_day" by simp
  with assms(1,2) show ?thesis by (simp add: filter_step_def too_old_cases)
qed

text \<open>
  C7 (amended). \<open>days_since_posted\<close> returns infinity for an absent date. For a naive
  date it returns the floor of now minus the date in days, that is, the whole number \<open>d\<close>
  of days with \<open>d\<close> days at most the difference and the difference less than \<open>d + 1\<close> days.
  For a date not after now this is the truncated difference; for a date after now it is
  negative. The age filter does not raise on a naive date, and with a limit that is not
  negative it keeps a posting with a matching title that is dated after now.
\<close>

theorem days_since_floor:
  "days_since_posted now None = Inr Infinity
   \<and> days_since_posted now (Some (Naive t)) = Inr (Days ((now - t) div us_per_day))
   \<and> ((now - t) div us_per_day) * us_per_day \<le> now - t
   \<and> now - t < ((now - t) div us_per_day + 1) * us_per_day
   \<and> (t \<le> now \<longrightarrow> (now - t) div us_per_day = spec_days_truncated now t)
   \<and> (now < t \<longrightarrow> (now - t) div us_per_day < 0)
   \<and> (posted_date j = Some (Naive t) \<longrightarrow> (\<exists>r. filter_step cfg now j = Inr r))
   \<and> (title_match cfg j \<and> posted_date j = Some (Naive t) \<and> now < t \<and> 0 \<le> max_age_days cfg
        \<longrightarrow> filter_step cfg now j = Inr (True, mark_status j))"
  using floor_days_bounds[of now t] floor_is_truncation[of t now] future_is_negative[of now t]
    filter_step_naive[of j t cfg now] filter_step_future[of cfg j t now]
  by (simp add: days_since_posted_def)

theorem days_since_floor_witness:
  "days_since_posted (100 * us_per_day) (Some (Naive (98 * us_per_day - us_per_hour)))
     = Inr (Days (spec_days_truncated (100 * us_per_day) (98 * us_per_day - us_per_hour)))
   \<and> spec_days_truncated (100 * us_per_day) (98 * us_per_day - us_per_hour) = 2
   \<and> filter_step data_engineer (100 * us_per_day)
        (posting ''f'' ''Data Engineer'' ''Dubai'' (Some (Naive (100 * us_per_day + us_per_hour))))
      = Inr (True, mark_status
          (posting ''f'' ''Data Engineer'' ''Dubai'' (Some (Naive (100 * us_per_day + us_per_hour)))))"
proof -
  let ?now = "100 * us_per_day"
  let ?past = "98 * us_per_day - us_per_hour"
  let ?future = "100 * us_per_day + us_per_hour"
  let ?j = "posting ''f'' ''Data Engineer'' ''Dubai'' (Some (Naive ?future))"
  have le: "?past \<le> ?now" and lt: "?now < ?future"
    by (simp_all add: us_per_day_def us_per_hour_def)
  have m: "0 \<le> max_age_days data_engineer" by (simp add: data_engineer_def)
  from days_since_floor[where now = ?now and t = ?past] le
  have "days_since_posted ?now (Some (Naive ?past)) = Inr (Days (spec_days_truncated ?now ?past))"
    by simp
  moreover have "spec_days_truncated ?now ?past = 2"
    by (simp add: spec_days_truncated_def us_per_day_def us_per_hour_def)
  moreover from days_since_floor[where now = ?now and t = ?future and cfg = data_engineer
      and j = ?j] lt m title_match_example
  have "filter_step data_engineer ?now ?j = Inr (True, mark_status ?j)"
    by (simp add: posting_simps)
  ultimately show ?thesis by blast
qed

subsection \<open>The boundary of \<open>scrape\<close>\<close>

lemma parse_loop_raises:
  "r \<in> set raw_jobs \<Longrightarrow> parse_job r = Inl e \<Longrightarrow>
     \<exists>e' r'. r' \<in> set raw_jobs \<and> parse_job r' = Inl e' \<and> parse_loop parse_job raw_jobs = Inl e'"
proof (induction raw_jobs)
  case Nil
  then show ?case by simp
next
  case (Cons x xs)
  show ?case
  proof (cases "parse_job x")
    case (Inl e0)
    then show ?thesis by auto
  next
    case (Inr p)
    with Cons.prems have "r \<in> set xs" by auto
    from Cons.IH[OF this Cons.prems(2)] obtain e' r' where
      "r' \<in> set xs" "parse_job r' = Inl e'" "parse_loop parse_job xs = Inl e'" by blast
    with Inr show ?thesis by auto
  qed
qed

lemma filter_jobs_raises: "fst (filter_jobs cfg now jobs) = Inl e \<Longrightarrow> is_Exception e"
proof -
  assume "fst (filter_jobs cfg now jobs) = Inl e"
  then have "fst (filter_loop cfg now jobs) = Inl e"
    by (simp add: filter_jobs_fst split: sum.splits)
  from filter_loop_raises[OF this] show ?thesis by simp
qed

lemma scrape_catches:
  "scrape_body cfg now fetch_jobs parse_job = Inl e \<Longrightarrow> is_Exception e \<Longrightarrow>
     scrape cfg now fetch_jobs parse_job = Inr []"
  by (simp add: scrape_def)

text \<open>
  C1. Whatever the adapter, an error (an exception of class \<open>Exception\<close>) raised by
  \<open>fetch_jobs\<close>, by \<open>parse_job\<close> on some item, or in the filter loop ends the body of
  \<open>scrape\<close>, and \<open>scrape\<close> then returns the empty list; when the body returns, \<open>scrape\<close>
  returns its list. \<open>scrape\<close> never raises an exception of class \<open>Exception\<close> to its
  caller: whatever it raises was raised in its body and is not of that class.
\<close>

theorem scrape_soft_fail:
  "(is_Exception e \<and> fetch_jobs = Inl e \<longrightarrow> scrape cfg now fetch_jobs parse_job = Inr [])
   \<and> (fetch_jobs = Inr raw_jobs \<and> (\<exists>r\<in>set raw_jobs. \<exists>e'. parse_job r = Inl e')
        \<and> (\<forall>r\<in>set raw_jobs. \<forall>e'. parse_job r = Inl e' \<longrightarrow> is_Exception e')
        \<longrightarrow> scrape cfg now fetch_jobs parse_job = Inr [])
   \<and> (fetch_jobs = Inr raw_jobs \<and> parse_loop parse_job raw_jobs = Inr jobs
        \<and> fst (filter_jobs cfg now jobs) = Inl e
        \<longrightarrow> scrape cfg now fetch_jobs parse_job = Inr [])
   \<and> (scrape_body cfg now fetch_jobs parse_job = Inl e \<and> is_Exception e
        \<longrightarrow> scrape cfg now fetch_jobs parse_job = Inr [])
   \<and> (scrape_body cfg now fetch_jobs parse_job = Inr out
        \<longrightarrow> scrape cfg now fetch_jobs parse_job = Inr out)
   \<and> (\<forall>x. scrape cfg now fetch_jobs parse_job = Inl x \<longrightarrow>
         \<not> is_Exception x \<and> scrape_body cfg now fetch_jobs parse_job = Inl x)"
proof (intro conjI impI allI)
  assume "is_Exception e \<and> fetch_jobs = Inl e"
  then show "scrape cfg now fetch_jobs parse_job = Inr []"
    by (simp add: scrape_def scrape_body_def)
next
  assume a: "fetch_jobs = Inr raw_jobs \<and> (\<exists>r\<in>set raw_jobs. \<exists>e'. parse_job r = Inl e')
        \<and> (\<forall>r\<in>set raw_jobs. \<forall>e'. parse_job r = Inl e' \<longrightarrow> is_Exception e')"
  then obtain r e' where "r \<in> set raw_jobs" "parse_job r = Inl e'" by blast
  from parse_loop_raises[of r raw_jobs parse_job e', OF this] obtain e'' r' where
    r': "r' \<in> set raw_jobs" "parse_job r' = Inl e''" "parse_loop parse_job raw_jobs = Inl e''"
    by blast
  with a have "is_Exception e''" by blast
  with a r'(3) show "scrape cfg now fetch_jobs parse_job = Inr []"
    by (simp add: scrape_def scrape_body_def)
next
  assume a: "fetch_jobs = Inr raw_jobs \<and> parse_loop parse_job raw_jobs = Inr jobs
        \<and> fst (filter_jobs cfg now jobs) = Inl e"
  then have "is_Exception e" using filter_jobs_raises by blast
  with a show "scrape cfg now fetch_jobs parse_job = Inr []"
    by (simp add: scrape_def scrape_body_def)
next
  assume "scrape_body cfg now fetch_jobs parse_job = Inl e \<and> is_Exception e"
  then show "scrape cfg now fetch_jobs parse_job = Inr []"
    using scrape_catches by blast
next
  assume "scrape_body cfg now fetch_jobs parse_job = Inr out"
  then show "scrape cfg now fetch_jobs parse_job = Inr out"
    by (simp add: scrape_def)
next
  fix x
  assume "scrape cfg now fetch_jobs parse_job = Inl x"
  then show "\<not> is_Exception x"
    by (auto simp: scrape_def split: sum.splits if_splits)
next
  fix x
  assume "scrape cfg now fetch_jobs parse_job = Inl x"
  then show "scrape_body cfg now fetch_jobs parse_job = Inl x"
    by (auto simp: scrape_def split: sum.splits if_splits)
qed

text \<open>
  A failing fetch, a failing parse, and a posting whose aware date makes the age test of
  the filter loop raise: each time \<open>scrape\<close> returns the empty list.
\<close>

theorem scrape_soft_fail_witness:
  "scrape data_engineer 0 (Inl (OtherException ''WebDriverException'')) (\<lambda>raw :: unit. Inr None)
     = Inr []
   \<and> scrape data_engineer 0 (Inr [()]) (\<lambda>raw. Inl (OtherException ''KeyError'')) = Inr []
   \<and> scrape data_engineer (100 * us_per_day) (Inr [()])
        (\<lambda>raw. Inr (Some (posting ''k'' ''Data Engineer'' ''Dubai''
                            (Some (Aware (99 * us_per_day))))))
      = Inr []"
proof -
  have "is_Exception (OtherException ''WebDriverException'')" by simp
  with scrape_soft_fail[where e = "OtherException ''WebDriverException''"
      and fetch_jobs = "Inl (OtherException ''WebDriverException'')" and cfg = data_engineer
      and now = 0 and parse_job = "\<lambda>raw :: unit. Inr None"]
  have 1: "scrape data_engineer 0 (Inl (OtherException ''WebDriverException''))
      (\<lambda>raw :: unit. Inr None) = Inr []"
    by blast
  from scrape_soft_fail[where fetch_jobs = "Inr [()]" and cfg = data_engineer and now = 0
      and parse_job = "\<lambda>raw. Inl (OtherException ''KeyError'')" and raw_jobs = "[()]"]
  have 2: "scrape data_engineer 0 (Inr [()]) (\<lambda>raw. Inl (OtherException ''KeyError'')) = Inr []"
    by simp
  let ?k = "posting ''k'' ''Data Engineer'' ''Dubai'' (Some (Aware (99 * us_per_day)))"
  have raised: "fst (filter_jobs data_engineer (100 * us_per_day) [?k]) = Inl TypeError"
    by (simp add: filter_jobs_def filter_step_def too_old_cases title_match_example
        posting_simps)
  have parsed: "parse_loop (\<lambda>raw :: unit. Inr (Some ?k)) [()] = Inr [?k]"
    by simp
  from scrape_soft_fail[where fetch_jobs = "Inr [()]" and cfg = data_engineer
      and now = "100 * us_per_day" and parse_job = "\<lambda>raw :: unit. Inr (Some ?k)"
      and raw_jobs = "[()]" and jobs = "[?k]" and e = TypeError] raised parsed
  have 3: "scrape data_engineer (100 * us_per_day) (Inr [()]) (\<lambda>raw. Inr (Some ?k)) = Inr []"
    by blast
  from 1 2 3 show ?thesis by blast
qed

section \<open>Properties of the job store\<close>

lemma find_id_None: "find (\<lambda>r. job_id r = i) xs = None \<longleftrightarrow> i \<notin> job_id ` set xs"
  by (auto simp: find_None_iff)

lemma add_job_try_new:
  assumes "job_id r \<notin> job_id ` set (rows s)"
  shows "add_job_try NoFault now r s
           = (Inr True, session_commit (s\<lparr>session_new := session_new s @ [JobModel now r]\<rparr>))"
    and "add_job_try (CommitFault err) now r s
           = (Inl (OtherException err), s\<lparr>session_new := session_new s @ [JobModel now r]\<rparr>)"
  using assms by (simp_all add: add_job_try_def find_id_None[symmetric] Let_def)

lemma add_job_try_duplicate:
  assumes "job_id r \<in> job_id ` set (rows s)"
  shows "add_job_try NoFault now r s = (Inr False, s)"
    and "add_job_try (CommitFault err) now r s = (Inr False, s)"
proof -
  from assms have "find (\<lambda>x. job_id x = job_id r) (rows s) \<noteq> None"
    by (simp add: find_id_None)
  then obtain x where "find (\<lambda>x. job_id x = job_id r) (rows s) = Some x" by blast
  then show "add_job_try NoFault now r s = (Inr False, s)"
    and "add_job_try (CommitFault err) now r s = (Inr False, s)"
    by (simp_all add: add_job_try_def)
qed

lemma add_job_new:
  assumes "session_new s = []" "job_id r \<notin> job_id ` set (rows s)"
  shows "add_job NoFault now r s = (Inr True, s\<lparr>rows := rows s @ [JobModel now r]\<rparr>)"
  using assms by (simp add: add_job_def add_job_try_new session_commit_def)

lemma add_job_new_pending:
  assumes "job_id r \<notin> job_id ` set (rows s)"
  shows "add_job NoFault now r s
    = (Inr True, session_commit (s\<lparr>session_new := session_new s @ [JobModel now r]\<rparr>))"
  using assms by (simp add: add_job_def add_job_try_new)

lemma add_job_duplicate:
  assumes "job_id r \<in> job_id ` set (rows s)"
  shows "add_job NoFault now r s = (Inr False, s)"
    and "add_job (CommitFault err) now r s = (Inr False, s)"
  using assms by (simp_all add: add_job_def add_job_try_duplicate)

lemma add_job_query_fault:
  "add_job (QueryFault err) now r s = (Inl (OtherException err), session_rollback s)"
  by (simp add: add_job_def add_job_try_def)

lemma add_job_commit_fault:
  assumes "job_id r \<notin> job_id ` set (rows s)"
  shows "add_job (CommitFault err) now r s = (Inl (OtherException err), session_rollback s)"
  using assms by (simp add: add_job_def add_job_try_new session_rollback_def)

lemma add_job_raises:
  assumes "fst (add_job fault now r s) = Inl e"
  shows "is_Exception e \<and> snd (add_job fault now r s) = session_rollback s"
proof (cases fault)
  case NoFault
  with assms show ?thesis
    by (cases "job_id r \<in> job_id ` set (rows s)")
      (simp_all add: add_job_duplicate add_job_new_pending)
next
  case (QueryFault err)
  with assms show ?thesis by (auto simp: add_job_query_fault)
next
  case (CommitFault err)
  with assms show ?thesis
    by (cases "job_id r \<in> job_id ` set (rows s)")
      (auto simp: add_job_duplicate add_job_commit_fault)
qed

lemma job_id_JobModel: "job_id (JobModel now r) = job_id r"
  by (simp add: JobModel_def)

lemma total_jobs_stats: "total_jobs (get_stats s) = length (rows s)"
  by (simp add: get_stats_def)

text \<open>
  C4. On a store whose session holds nothing pending and whose storage layer does not
  fail, \<open>add_job\<close> returns whether no row has the identifier of the record; if a row has
  it the store is left as it is, otherwise one row is appended. After an insertion, adding
  any record with the same identifier, equal in content or not, returns false and
  leaves the store and the total of \<open>get_stats\<close> as they are.
\<close>

theorem add_job_dedup:
  "session_new s = [] \<longrightarrow>
     fst (add_job NoFault now r s) = Inr (job_id r \<notin> job_id ` set (rows s))
   \<and> (job_id r \<in> job_id ` set (rows s) \<longrightarrow> snd (add_job NoFault now r s) = s)
   \<and> (job_id r \<notin> job_id ` set (rows s) \<longrightarrow>
        snd (add_job NoFault now r s) = s\<lparr>rows := rows s @ [JobModel now r]\<rparr>
      \<and> total_jobs (get_stats (snd (add_job NoFault now r s))) = Suc (total_jobs (get_stats s))
      \<and> (job_id r' = job_id r \<longrightarrow>
            add_job NoFault now' r' (snd (add_job NoFault now r s))
              = (Inr False, snd (add_job NoFault now r s))
          \<and> total_jobs (get_stats (snd (add_job NoFault now' r' (snd (add_job NoFault now r s)))))
              = total_jobs (get_stats (snd (add_job NoFault now r s)))))"
proof (intro impI conjI)
  assume clean: "session_new s = []"
  show "fst (add_job NoFault now r s) = Inr (job_id r \<notin> job_id ` set (rows s))"
    using clean by (cases "job_id r \<in> job_id ` set (rows s)")
      (simp_all add: add_job_new add_job_duplicate)
  show "snd (add_job NoFault now r s) = s" if "job_id r \<in> job_id ` set (rows s)"
    using that by (simp add: add_job_duplicate)
  assume new: "job_id r \<notin> job_id ` set (rows s)"
  let ?s1 = "s\<lparr>rows := rows s @ [JobModel now r]\<rparr>"
  from clean new have s1: "add_job NoFault now r s = (Inr True, ?s1)"
    by (rule add_job_new)
  show "snd (add_job NoFault now r s) = ?s1" by (simp add: s1)
  show "total_jobs (get_stats (snd (add_job NoFault now r s))) = Suc (total_jobs (get_stats s))"
    by (simp add: s1 total_jobs_stats)
  assume same: "job_id r' = job_id r"
  then have dup: "job_id r' \<in> job_id ` set (rows ?s1)"
    by (simp add: job_id_JobModel)
  from add_job_duplicate[OF dup]
  show "add_job NoFault now' r' (snd (add_job NoFault now r s))
      = (Inr False, snd (add_job NoFault now r s))"
    by (simp add: s1)
  then show "total_jobs (get_stats (snd (add_job NoFault now' r' (snd (add_job NoFault now r s)))))
      = total_jobs (get_stats (snd (add_job NoFault now r s)))"
    by simp
qed

theorem add_job_dedup_witness:
  "fst (add_job NoFault 5 (posting ''k'' ''Data Engineer'' ''Dubai'' None) empty_store) = Inr True
   \<and> fst (add_job NoFault 6 (posting ''k'' ''Data Scientist'' ''Paris'' None)
          (snd (add_job NoFault 5 (posting ''k'' ''Data Engineer'' ''Dubai'' None) empty_store)))
       = Inr False
   \<and> total_jobs (get_stats
         (snd (add_job NoFault 6 (posting ''k'' ''Data Scientist'' ''Paris'' None)
           (snd (add_job NoFault 5 (posting ''k'' ''Data Engineer'' ''Dubai'' None) empty_store)))))
       = 1"
proof -
  let ?r = "posting ''k'' ''Data Engineer'' ''Dubai'' None"
  let ?r' = "posting ''k'' ''Data Scientist'' ''Paris'' None"
  note dedup = add_job_dedup[where s = empty_store and now = 5 and r = ?r and r' = ?r'
      and now' = 6]
  have clean: "session_new empty_store = []"
    and new: "job_id ?r \<notin> job_id ` set (rows empty_store)"
    and same: "job_id ?r' = job_id ?r"
    and zero: "total_jobs (get_stats empty_store) = 0"
    by (simp_all add: empty_store_def posting_simps get_stats_def)
  from dedup clean new have 1: "fst (add_job NoFault 5 ?r empty_store) = Inr True"
    by simp
  from dedup clean new same
  have 2: "add_job NoFault 6 ?r' (snd (add_job NoFault 5 ?r empty_store))
      = (Inr False, snd (add_job NoFault 5 ?r empty_store))"
    by blast
  from dedup clean new
  have 3: "total_jobs (get_stats (snd (add_job NoFault 5 ?r empty_store)))
      = Suc (total_jobs (get_stats empty_store))"
    by blast
  from 1 2 3 zero show ?thesis by simp
qed

text \<open>
  C5. When \<open>add_job\<close> raises, what it raises is an error of the storage layer, of class
  \<open>Exception\<close>; the rows of the table are as before the call and the session holds nothing
  pending: the object added in the \<open>try\<close> block before a failing commit has been rolled
  back. A failing query and, for a new identifier, a failing commit are raised to the
  caller, and \<open>add_jobs\<close> raises what \<open>add_job\<close> raises.
\<close>

theorem add_job_failure:
  "(fst (add_job fault now r s) = Inl e \<longrightarrow>
      is_Exception e \<and> rows (snd (add_job fault now r s)) = rows s
      \<and> session_new (snd (add_job fault now r s)) = [])
   \<and> add_job (QueryFault err) now r s = (Inl (OtherException err), session_rollback s)
   \<and> (job_id r \<notin> job_id ` set (rows s) \<longrightarrow>
        session_new (snd (add_job_try (CommitFault err) now r s))
          = session_new s @ [JobModel now r]
      \<and> add_job (CommitFault err) now r s = (Inl (OtherException err), session_rollback s))
   \<and> (fst (add_job (io r) now r s) = Inl e \<longrightarrow>
        add_jobs io now (r # rest) s = (Inl e, snd (add_job (io r) now r s)))"
proof (intro conjI impI)
  assume raised: "fst (add_job fault now r s) = Inl e"
  note rb = add_job_raises[OF raised]
  from rb show "is_Exception e" by simp
  from rb show "rows (snd (add_job fault now r s)) = rows s"
    by (simp add: session_rollback_def)
  from rb show "session_new (snd (add_job fault now r s)) = []"
    by (simp add: session_rollback_def)
next
  show "add_job (QueryFault err) now r s = (Inl (OtherException err), session_rollback s)"
    by (rule add_job_query_fault)
next
  assume new: "job_id r \<notin> job_id ` set (rows s)"
  show "session_new (snd (add_job_try (CommitFault err) now r s))
      = session_new s @ [JobModel now r]"
    by (simp add: add_job_try_new[OF new])
  show "add_job (CommitFault err) now r s = (Inl (OtherException err), session_rollback s)"
    by (rule add_job_commit_fault[OF new])
next
  assume "fst (add_job (io r) now r s) = Inl e"
  then show "add_jobs io now (r # rest) s = (Inl e, snd (add_job (io r) now r s))"
    by (cases "add_job (io r) now r s") simp
qed

theorem add_job_failure_witness:
  "add_job (CommitFault ''OperationalError'') 5 (posting ''k'' ''Data Engineer'' ''Dubai'' None)
       empty_store
     = (Inl (OtherException ''OperationalError''), empty_store)
   \<and> add_jobs (\<lambda>j. CommitFault ''OperationalError'') 5
       [posting ''k'' ''Data Engineer'' ''Dubai'' None, posting ''m'' ''Data Engineer'' ''Paris'' None]
       empty_store
     = (Inl (OtherException ''OperationalError''), empty_store)"
proof -
  let ?r = "posting ''k'' ''Data Engineer'' ''Dubai'' None"
  let ?io = "\<lambda>j :: job. CommitFault ''OperationalError''"
  note failure = add_job_failure[where fault = "CommitFault ''OperationalError''" and now = 5
      and r = ?r and s = empty_store and err = "''OperationalError''" and io = ?io
      and e = "OtherException ''OperationalError''"
      and rest = "[posting ''m'' ''Data Engineer'' ''Paris'' None]"]
  have new: "job_id ?r \<notin> job_id ` set (rows empty_store)"
    by (simp add: empty_store_def)
  have rb: "session_rollback empty_store = empty_store"
    by (simp add: session_rollback_def empty_store_def)
  from failure new rb
  have a: "add_job (CommitFault ''OperationalError'') 5 ?r empty_store
      = (Inl (OtherException ''OperationalError''), empty_store)"
    by simp
  with failure have "add_jobs ?io 5 [?r, posting ''m'' ''Data Engineer'' ''Paris'' None] empty_store
      = (Inl (OtherException ''OperationalError''), empty_store)"
    by simp
  with a show ?thesis by blast
qed

subsection \<open>Notification state\<close>

lemma add_jobs_two:
  assumes "job_id j1 \<noteq> job_id j2"
  shows "add_jobs (\<lambda>j. NoFault) now [j1, j2] empty_store
    = (Inr 2, \<lparr>rows = [JobModel now j1, JobModel now j2], session_new = []\<rparr>)"
proof -
  have 1: "add_job NoFault now j1 empty_store
      = (Inr True, \<lparr>rows = [JobModel now j1], session_new = []\<rparr>)"
    by (simp add: add_job_new empty_store_def)
  from assms have 2: "add_job NoFault now j2 \<lparr>rows = [JobModel now j1], session_new = []\<rparr>
      = (Inr True, \<lparr>rows = [JobModel now j1, JobModel now j2], session_new = []\<rparr>)"
    by (simp add: add_job_new job_id_JobModel)
  show ?thesis by (simp add: 1 2)
qed

lemma mark_as_notified_rows:
  "rows (mark_as_notified now ids s)
     = map (\<lambda>r. if job_id r \<in> set ids then r\<lparr>notified := True, notified_at := Naive now\<rparr>
                 else r) (rows s)"
  by (simp add: mark_as_notified_def)

lemma mark_as_notified_twice_same:
  "mark_as_notified now ids (mark_as_notified now ids s) = mark_as_notified now ids s"
  by (simp add: mark_as_notified_def comp_def cong: map_cong)

lemma mark_as_notified_twice_stamp:
  "map (\<lambda>r. r\<lparr>notified_at := d\<rparr>) (rows (mark_as_notified now' ids (mark_as_notified now ids s)))
     = map (\<lambda>r. r\<lparr>notified_at := d\<rparr>) (rows (mark_as_notified now ids s))"
  by (simp add: mark_as_notified_rows comp_def cong: map_cong)

lemma mark_as_notified_twice_unnotified:
  "get_unnotified_jobs (mark_as_notified now' ids (mark_as_notified now ids s))
     = get_unnotified_jobs (mark_as_notified now ids s)"
  by (simp add: get_unnotified_jobs_def mark_as_notified_rows filter_map comp_def
      cong: map_cong filter_cong)

lemma update_first_absent: "\<forall>x\<in>set xs. \<not> P x \<Longrightarrow> update_first P f xs = xs"
  by (induction xs) simp_all

lemma mark_resume_generated_absent:
  assumes "i \<notin> job_id ` set (rows s)"
  shows "mark_resume_generated i path s = s"
proof -
  from assms have "\<forall>x\<in>set (rows s). \<not> job_id x = i" by auto
  then have "update_first (\<lambda>r. job_id r = i)
      (\<lambda>r. r\<lparr>resume_generated := True, resume_path := Some path\<rparr>) (rows s) = rows s"
    by (rule update_first_absent)
  then show ?thesis by (simp add: mark_resume_generated_def)
qed

text \<open>
  C6. For two records with distinct identifiers, starting from the empty store:
  \<open>add_jobs\<close> inserts both; after marking the first as notified, the unnotified rows are
  exactly the row of the second; after then recording a resume for the second,
  \<open>get_stats\<close> counts one generated resume. Marking the same identifiers as notified a
  second time leaves the unnotified rows and every column other than \<open>notified_at\<close> as
  they are (the call stamps \<open>notified_at\<close> with its own time; at the same time the store is
  unchanged), and \<open>mark_resume_generated\<close> leaves the store as it is when no row has the
  identifier.
\<close>

theorem store_round_trip:
  "(job_id j1 \<noteq> job_id j2 \<longrightarrow>
      fst (add_jobs (\<lambda>j. NoFault) now [j1, j2] empty_store) = Inr 2
    \<and> get_unnotified_jobs
        (mark_as_notified now' [job_id j1]
          (snd (add_jobs (\<lambda>j. NoFault) now [j1, j2] empty_store)))
       = [JobModel now j2]
    \<and> resumes_generated (get_stats
        (mark_resume_generated (job_id j2) ''path.docx''
          (mark_as_notified now' [job_id j1]
            (snd (add_jobs (\<lambda>j. NoFault) now [j1, j2] empty_store)))))
       = 1)
   \<and> mark_as_notified now' ids (mark_as_notified now' ids s) = mark_as_notified now' ids s
   \<and> get_unnotified_jobs (mark_as_notified now'' ids (mark_as_notified now' ids s))
       = get_unnotified_jobs (mark_as_notified now' ids s)
   \<and> map (\<lambda>r. r\<lparr>notified_at := d\<rparr>)
         (rows (mark_as_notified now'' ids (mark_as_notified now' ids s)))
       = map (\<lambda>r. r\<lparr>notified_at := d\<rparr>) (rows (mark_as_notified now' ids s))
   \<and> (i \<notin> job_id ` set (rows s) \<longrightarrow> mark_resume_generated i path s = s)"
proof (intro conjI impI)
  assume distinct: "job_id j1 \<noteq> job_id j2"
  note two = add_jobs_two[OF distinct, of now]
  show "fst (add_jobs (\<lambda>j. NoFault) now [j1, j2] empty_store) = Inr 2"
    by (simp only: two fst_conv)
  show "get_unnotified_jobs
        (mark_as_notified now' [job_id j1]
          (snd (add_jobs (\<lambda>j. NoFault) now [j1, j2] empty_store)))
       = [JobModel now j2]"
    unfolding two snd_conv using distinct
    by (simp add: get_unnotified_jobs_def mark_as_notified_rows job_id_JobModel)
      (simp add: JobModel_def)
  show "resumes_generated (get_stats
        (mark_resume_generated (job_id j2) ''path.docx''
          (mark_as_notified now' [job_id j1]
            (snd (add_jobs (\<lambda>j. NoFault) now [j1, j2] empty_store)))))
       = 1"
    unfolding two snd_conv using distinct
    by (simp add: get_stats_def mark_resume_generated_def mark_as_notified_rows
        job_id_JobModel)
      (simp add: JobModel_def)
next
  show "mark_as_notified now' ids (mark_as_notified now' ids s) = mark_as_notified now' ids s"
    by (rule mark_as_notified_twice_same)
  show "get_unnotified_jobs (mark_as_notified now'' ids (mark_as_notified now' ids s))
       = get_unnotified_jobs (mark_as_notified now' ids s)"
    by (rule mark_as_notified_twice_unnotified)
  show "map (\<lambda>r. r\<lparr>notified_at := d\<rparr>)
         (rows (mark_as_notified now'' ids (mark_as_notified now' ids s)))
       = map (\<lambda>r. r\<lparr>notified_at := d\<rparr>) (rows (mark_as_notified now' ids s))"
    by (rule mark_as_notified_twice_stamp)
next
  assume "i \<notin> job_id ` set (rows s)"
  then show "mark_resume_generated i path s = s"
    by (rule mark_resume_generated_absent)
qed

theorem store_round_trip_witness:
  "get_unnotified_jobs
     (mark_as_notified 7 [''k'']
       (snd (add_jobs (\<lambda>j. NoFault) 5
          [posting ''k'' ''Data Engineer'' ''Dubai'' None,
           posting ''m'' ''Data Engineer'' ''Paris'' None] empty_store)))
     = [JobModel 5 (posting ''m'' ''Data Engineer'' ''Paris'' None)]
   \<and> mark_resume_generated ''z'' ''path.docx'' empty_store = empty_store"
proof -
  let ?k = "posting ''k'' ''Data Engineer'' ''Dubai'' None"
  let ?m = "posting ''m'' ''Data Engineer'' ''Paris'' None"
  note trip = store_round_trip[where ?j1.0 = ?k and ?j2.0 = ?m and now = 5 and now' = 7
      and i = "''z''" and s = empty_store and path = "''path.docx''"]
  have distinct: "job_id ?k \<noteq> job_id ?m" and k: "job_id ?k = ''k''"
    by (simp_all add: posting_simps)
  have absent: "''z'' \<notin> job_id ` set (rows empty_store)"
    by (simp add: empty_store_def)
  from trip distinct
  have "get_unnotified_jobs (mark_as_notified 7 [job_id ?k]
      (snd (add_jobs (\<lambda>j. NoFault) 5 [?k, ?m] empty_store))) = [JobModel 5 ?m]"
    by blast
  moreover from trip absent
  have "mark_resume_generated ''z'' ''path.docx'' empty_store = empty_store"
    by blast
  ultimately show ?thesis by (simp only: k) 
qed

section \<open>Properties of the relative-date parsers\<close>

lemma decimal_nonempty: "decimal n \<noteq> []"
  by (subst decimal.simps) simp

lemma isdigit_decimal: "c \<in> set (decimal n) \<Longrightarrow> isdigit c"
proof (induction n rule: decimal.induct)
  case (1 n)
  show ?case
  proof (cases "n < 10")
    case True
    with 1(2) have "c = char_of (48 + n)" by (subst (asm) decimal.simps) simp
    with True show ?thesis by (simp add: isdigit_def)
  next
    case False
    with 1(2) have "c \<in> set (decimal (n div 10)) \<or> c = char_of (48 + n mod 10)"
      by (subst (asm) decimal.simps) auto
    moreover have "isdigit (char_of (48 + n mod 10))"
      by (simp add: isdigit_def)
    ultimately show ?thesis using 1(1)[OF False] by auto
  qed
qed

lemma char_lower_digit: "isdigit c \<Longrightarrow> char_lower c = c"
  by (simp add: isdigit_def char_lower_def Let_def)

lemma lower_decimal: "lower (decimal n) = decimal n"
  by (simp add: lower_def map_idI isdigit_decimal char_lower_digit)

lemma lower_append: "lower (a @ b) = lower a @ lower b"
  by (simp add: lower_def)

lemma int_of_digits_snoc:
  "int_of_digits (ds @ [c]) = 10 * int_of_digits ds + (int (of_char c) - 48)"
  by (simp add: int_of_digits_def)

lemma int_of_digits_decimal: "int_of_digits (decimal n) = int n"
proof (induction n rule: decimal.induct)
  case (1 n)
  show ?case
  proof (cases "n < 10")
    case True
    then show ?thesis
      by (subst decimal.simps) (simp add: int_of_digits_def)
  next
    case False
    have "int_of_digits (decimal n)
        = 10 * int_of_digits (decimal (n div 10)) + (int (of_char (char_of (48 + n mod 10) :: char)) - 48)"
      using False by (subst decimal.simps) (simp add: int_of_digits_snoc)
    also have "\<dots> = 10 * int (n div 10) + int (n mod 10)"
      using 1[OF False] by simp
    also have "\<dots> = int n" by presburger
    finally show ?thesis .
  qed
qed

lemma not_in_decimal_suffix:
  assumes "\<exists>c\<in>set needle. \<not> isdigit c \<and> c \<notin> set sfx"
  shows "\<not> str_in needle (decimal n @ sfx)"
proof
  assume "str_in needle (decimal n @ sfx)"
  then have "set needle \<subseteq> set (decimal n) \<union> set sfx"
    using set_mono_sublist[of needle "decimal n @ sfx"] by (simp add: str_in_def)
  with assms isdigit_decimal show False by blast
qed

lemma re_search_decimal:
  assumes "sfx = c # rest" "\<not> isdigit c"
    and "match_unit units (dropWhile isspace sfx) = Some (u, r)"
    and "prefix ''ago'' (dropWhile isspace
           (case r of [] \<Rightarrow> [] | c # cs \<Rightarrow> if c = CHR ''s'' then cs else c # cs))"
  shows "re_search units (decimal n @ sfx) = Some (decimal n, u)"
proof -
  have tw: "takeWhile isdigit (decimal n @ sfx) = decimal n"
    using assms(1,2) isdigit_decimal by (simp add: takeWhile_append2)
  have dw: "dropWhile isdigit (decimal n @ sfx) = sfx"
    using assms(1,2) isdigit_decimal by (simp add: dropWhile_append2)
  have "match_here units (decimal n @ sfx) = Some (decimal n, u)"
    using assms(3,4) by (simp add: match_here_def tw dw decimal_nonempty)
  moreover obtain d ds where "decimal n @ sfx = d # ds"
    using decimal_nonempty[of n] by (cases "decimal n") auto
  ultimately show ?thesis by simp
qed

lemma ago_nonneg:
  assumes "0 \<le> us" "0 \<le> now" "now < datetime_max"
  shows "ago now us = (if us \<le> now then Inr (Some (Naive (now - us))) else Inl OverflowError)"
proof (cases "us \<le> now")
  case True
  with assms have "us < 3652059 * us_per_day" by (simp add: datetime_max_def)
  then have "us div us_per_day < 3652059"
    by (simp add: us_per_day_def div_less_iff_less_mult)
  moreover from assms(1) have "0 \<le> us div us_per_day"
    by (simp add: us_per_day_def pos_imp_zdiv_nonneg_iff)
  ultimately have "timedelta us = Inr us" by (simp add: timedelta_def)
  with True assms show ?thesis by (simp add: ago_def now_minus_def)
next
  case False
  then show ?thesis
    by (cases "timedelta us") (auto simp: ago_def now_minus_def timedelta_def split: if_splits)
qed

lemma ago_spec:
  assumes "0 \<le> us" "0 \<le> now" "now < datetime_max"
  shows "(case ago now us of Inl e \<Rightarrow> None | Inr d \<Rightarrow> d) = spec_ago now us"
  by (simp add: ago_nonneg[OF assms] spec_ago_def)

lemma re_search_form:
  assumes "case sfx of [] \<Rightarrow> False | c # rest \<Rightarrow> \<not> isdigit c"
    and "case match_unit units (dropWhile isspace sfx) of
           None \<Rightarrow> False
         | Some (u', r) \<Rightarrow> u' = u \<and> prefix ''ago'' (dropWhile isspace
             (case r of [] \<Rightarrow> [] | c # cs \<Rightarrow> if c = CHR ''s'' then cs else c # cs))"
  shows "re_search units (decimal n @ sfx) = Some (decimal n, u)"
proof -
  from assms(1) obtain c rest where sfx: "sfx = c # rest" "\<not> isdigit c"
    by (cases sfx) auto
  from assms(2) obtain r where "match_unit units (dropWhile isspace sfx) = Some (u, r)"
    and "prefix ''ago'' (dropWhile isspace
           (case r of [] \<Rightarrow> [] | c # cs \<Rightarrow> if c = CHR ''s'' then cs else c # cs))"
    by (cases "match_unit units (dropWhile isspace sfx)") auto
  with sfx show ?thesis by (rule re_search_decimal)
qed

lemma no_keyword:
  assumes "list_ex (\<lambda>c. \<not> isdigit c \<and> c \<notin> set sfx) needle"
  shows "\<not> str_in needle (decimal n @ sfx)"
  using assms by (intro not_in_decimal_suffix) (simp add: list_ex_iff)

lemma linkedin_form:
  assumes "0 \<le> now" "now < datetime_max"
    and "lower sfx = sfx"
    and "case sfx of [] \<Rightarrow> False | c # rest \<Rightarrow> \<not> isdigit c"
    and "case match_unit [''day'', ''week'', ''month'', ''hour''] (dropWhile isspace sfx) of
           None \<Rightarrow> False
         | Some (u', r) \<Rightarrow> u' = u \<and> prefix ''ago'' (dropWhile isspace
             (case r of [] \<Rightarrow> [] | c # cs \<Rightarrow> if c = CHR ''s'' then cs else c # cs))"
    and "list_ex (\<lambda>c. \<not> isdigit c \<and> c \<notin> set sfx) ''just now''"
    and "list_ex (\<lambda>c. \<not> isdigit c \<and> c \<notin> set sfx) ''today''"
    and "(u = ''hour'' \<and> k = us_per_hour) \<or> (u = ''day'' \<and> k = us_per_day)
         \<or> (u = ''week'' \<and> k = 7 * us_per_day) \<or> (u = ''month'' \<and> k = 30 * us_per_day)"
  shows "linkedin_parse_relative_date now (decimal n @ sfx) = spec_ago now (int n * k)"
proof -
  have low: "lower (decimal n @ sfx) = decimal n @ sfx"
    by (simp add: lower_append lower_decimal assms(3))
  note found = re_search_form[OF assms(4,5), of n]
  note k1 = no_keyword[OF assms(6), of n] and k2 = no_keyword[OF assms(7), of n]
  have k: "0 \<le> int n * k"
    using assms(8) by (auto simp: us_per_hour_def us_per_day_def)
  have "linkedin_parse_relative_date now (decimal n @ sfx)
      = (case ago now (int n * k) of Inl e \<Rightarrow> None | Inr d \<Rightarrow> d)"
    using assms(8)
    by (auto simp: linkedin_parse_relative_date_def linkedin_parse_relative_date_try_def
        low found k1 k2 int_of_digits_decimal mult.assoc)
  also have "\<dots> = spec_ago now (int n * k)"
    by (rule ago_spec[OF k assms(1,2)])
  finally show ?thesis .
qed

lemma google_form:
  assumes "0 \<le> now" "now < datetime_max"
    and "lower sfx = sfx"
    and "case sfx of [] \<Rightarrow> False | c # rest \<Rightarrow> \<not> isdigit c"
    and "case match_unit [''day'', ''week'', ''month''] (dropWhile isspace sfx) of
           None \<Rightarrow> False
         | Some (u', r) \<Rightarrow> u' = u \<and> prefix ''ago'' (dropWhile isspace
             (case r of [] \<Rightarrow> [] | c # cs \<Rightarrow> if c = CHR ''s'' then cs else c # cs))"
    and "list_ex (\<lambda>c. \<not> isdigit c \<and> c \<notin> set sfx) ''today''"
    and "list_ex (\<lambda>c. \<not> isdigit c \<and> c \<notin> set sfx) ''just''"
    and "list_ex (\<lambda>c. \<not> isdigit c \<and> c \<notin> set sfx) ''yesterday''"
    and "(u = ''day'' \<and> k = us_per_day)
         \<or> (u = ''week'' \<and> k = 7 * us_per_day) \<or> (u = ''month'' \<and> k = 30 * us_per_day)"
  shows "google_parse_date now (decimal n @ sfx) = spec_ago now (int n * k)"
proof -
  have low: "lower (decimal n @ sfx) = decimal n @ sfx"
    by (simp add: lower_append lower_decimal assms(3))
  note found = re_search_form[OF assms(4,5), of n]
  note k1 = no_keyword[OF assms(6), of n] and k2 = no_keyword[OF assms(7), of n]
    and k3 = no_keyword[OF assms(8), of n]
  have k: "0 \<le> int n * k"
    using assms(9) by (auto simp: us_per_day_def)
  have "google_parse_date now (decimal n @ sfx)
      = (case ago now (int n * k) of Inl e \<Rightarrow> None | Inr d \<Rightarrow> d)"
    using assms(9)
    by (auto simp: google_parse_date_def google_parse_date_try_def
        low found k1 k2 k3 int_of_digits_decimal mult.assoc)
  also have "\<dots> = spec_ago now (int n * k)"
    by (rule ago_spec[OF k assms(1,2)])
  finally show ?thesis .
qed

lemma linkedin_instances:
  assumes "0 \<le> now" "now < datetime_max"
  shows "linkedin_parse_relative_date now (decimal n @ '' hour ago'') = spec_ago now (int n * us_per_hour)"
    and "linkedin_parse_relative_date now (decimal n @ '' hours ago'') = spec_ago now (int n * us_per_hour)"
    and "linkedin_parse_relative_date now (decimal n @ '' day ago'') = spec_ago now (int n * us_per_day)"
    and "linkedin_parse_relative_date now (decimal n @ '' days ago'') = spec_ago now (int n * us_per_day)"
    and "linkedin_parse_relative_date now (decimal n @ '' week ago'') = spec_ago now (int n * (7 * us_per_day))"
    and "linkedin_parse_relative_date now (decimal n @ '' weeks ago'') = spec_ago now (int n * (7 * us_per_day))"
    and "linkedin_parse_relative_date now (decimal n @ '' month ago'') = spec_ago now (int n * (30 * us_per_day))"
    and "linkedin_parse_relative_date now (decimal n @ '' months ago'') = spec_ago now (int n * (30 * us_per_day))"
proof -
  show "linkedin_parse_relative_date now (decimal n @ '' hour ago'') = spec_ago now (int n * us_per_hour)"
    by (rule linkedin_form[OF assms, where u = "''hour''"]; code_simp)
  show "linkedin_parse_relative_date now (decimal n @ '' hours ago'') = spec_ago now (int n * us_per_hour)"
    by (rule linkedin_form[OF assms, where u = "''hour''"]; code_simp)
  show "linkedin_parse_relative_date now (decimal n @ '' day ago'') = spec_ago now (int n * us_per_day)"
    by (rule linkedin_form[OF assms, where u = "''day''"]; code_simp)
  show "linkedin_parse_relative_date now (decimal n @ '' days ago'') = spec_ago now (int n * us_per_day)"
    by (rule linkedin_form[OF assms, where u = "''day''"]; code_simp)
  show "linkedin_parse_relative_date now (decimal n @ '' week ago'') = spec_ago now (int n * (7 * us_per_day))"
    by (rule linkedin_form[OF assms, where u = "''week''"]; code_simp)
  show "linkedin_parse_relative_date now (decimal n @ '' weeks ago'') = spec_ago now (int n * (7 * us_per_day))"
    by (rule linkedin_form[OF assms, where u = "''week''"]; code_simp)
  show "linkedin_parse_relative_date now (decimal n @ '' month ago'') = spec_ago now (int n * (30 * us_per_day))"
    by (rule linkedin_form[OF assms, where u = "''month''"]; code_simp)
  show "linkedin_parse_relative_date now (decimal n @ '' months ago'') = spec_ago now (int n * (30 * us_per_day))"
    by (rule linkedin_form[OF assms, where u = "''month''"]; code_simp)
qed

lemma google_instances:
  assumes "0 \<le> now" "now < datetime_max"
  shows "google_parse_date now (decimal n @ '' day ago'') = spec_ago now (int n * us_per_day)"
    and "google_parse_date now (decimal n @ '' days ago'') = spec_ago now (int n * us_per_day)"
    and "google_parse_date now (decimal n @ '' week ago'') = spec_ago now (int n * (7 * us_per_day))"
    and "google_parse_date now (decimal n @ '' weeks ago'') = spec_ago now (int n * (7 * us_per_day))"
    and "google_parse_date now (decimal n @ '' month ago'') = spec_ago now (int n * (30 * us_per_day))"
    and "google_parse_date now (decimal n @ '' months ago'') = spec_ago now (int n * (30 * us_per_day))"
proof -
  show "google_parse_date now (decimal n @ '' day ago'') = spec_ago now (int n * us_per_day)"
    by (rule google_form[OF assms, where u = "''day''"]; code_simp)
  show "google_parse_date now (decimal n @ '' days ago'') = spec_ago now (int n * us_per_day)"
    by (rule google_form[OF assms, where u = "''day''"]; code_simp)
  show "google_parse_date now (decimal n @ '' week ago'') = spec_ago now (int n * (7 * us_per_day))"
    by (rule google_form[OF assms, where u = "''week''"]; code_simp)
  show "google_parse_date now (decimal n @ '' weeks ago'') = spec_ago now (int n * (7 * us_per_day))"
    by (rule google_form[OF assms, where u = "''week''"]; code_simp)
  show "google_parse_date now (decimal n @ '' month ago'') = spec_ago now (int n * (30 * us_per_day))"
    by (rule google_form[OF assms, where u = "''month''"]; code_simp)
  show "google_parse_date now (decimal n @ '' months ago'') = spec_ago now (int n * (30 * us_per_day))"
    by (rule google_form[OF assms, where u = "''month''"]; code_simp)
qed

lemma keyword_phrases:
  "linkedin_parse_relative_date now ''today'' = Some (Naive now)"
  "linkedin_parse_relative_date now ''just now'' = Some (Naive now)"
  "google_parse_date now ''today'' = Some (Naive now)"
  "google_parse_date now ''just now'' = Some (Naive now)"
proof -
  have low: "lower ''today'' = ''today''" "lower ''just now'' = ''just now''"
    by code_simp+
  have "str_in ''today'' ''today''" "str_in ''just now'' ''just now''" "str_in ''just'' ''just now''"
    by code_simp+
  then show "linkedin_parse_relative_date now ''today'' = Some (Naive now)"
    "linkedin_parse_relative_date now ''just now'' = Some (Naive now)"
    "google_parse_date now ''today'' = Some (Naive now)"
    "google_parse_date now ''just now'' = Some (Naive now)"
    by (simp_all only: linkedin_parse_relative_date_def linkedin_parse_relative_date_try_def
        google_parse_date_def google_parse_date_try_def low Let_def simp_thms if_True
        sum.case)
qed

lemma google_yesterday:
  assumes "0 \<le> now" "now < datetime_max"
  shows "google_parse_date now ''yesterday'' = spec_ago now us_per_day"
proof -
  have low: "lower ''yesterday'' = ''yesterday''" by code_simp
  have no: "\<not> str_in ''today'' ''yesterday''" "\<not> str_in ''just'' ''yesterday''"
    and yes: "str_in ''yesterday'' ''yesterday''"
    by code_simp+
  have "google_parse_date now ''yesterday''
      = (case ago now (1 * us_per_day) of Inl e \<Rightarrow> None | Inr d \<Rightarrow> d)"
    by (simp only: google_parse_date_def google_parse_date_try_def low Let_def no yes
        simp_thms if_True if_False)
  also have "\<dots> = spec_ago now (1 * us_per_day)"
    by (rule ago_spec[OF _ assms]) (simp add: us_per_day_def)
  finally show ?thesis by simp
qed

text \<open>
  C8 (as stated, refuted). The two adapters that parse relative dates each have a parser
  of their own, and the parsers differ: LinkedIn's maps \<open>3 hours ago\<close> to three hours
  before now where Google's returns nothing, and Google's maps \<open>yesterday\<close> to one day
  before now where LinkedIn's returns nothing.
\<close>

theorem relative_date_counterexample:
  "linkedin_parse_relative_date (100 * us_per_day) ''yesterday'' = None
   \<and> google_parse_date (100 * us_per_day) ''yesterday'' = Some (Naive (99 * us_per_day))
   \<and> google_parse_date (100 * us_per_day) ''3 hours ago'' = None
   \<and> linkedin_parse_relative_date (100 * us_per_day) ''3 hours ago''
       = Some (Naive (100 * us_per_day - 3 * us_per_hour))"
  by code_simp

text \<open>
  C8 (amended). With now a valid date, the parser of the LinkedIn adapter maps a number
  followed by \<open>hour\<close>, \<open>day\<close>, \<open>week\<close> or \<open>month\<close>, an optional \<open>s\<close> and \<open>ago\<close> to now
  minus that many units, and the parser of the Google adapter does so for \<open>day\<close>, \<open>week\<close>
  and \<open>month\<close>; a month is 30 days, and the result is absent when it would lie before the
  first representable date. Both map \<open>today\<close> and \<open>just now\<close> to now, and Google's maps
  \<open>yesterday\<close> to now minus one day.
\<close>

theorem relative_date_parsers:
  "0 \<le> now \<and> now < datetime_max \<longrightarrow>
     (\<forall>(sfx, us)\<in>set (hour_forms @ relative_forms).
        linkedin_parse_relative_date now (decimal n @ sfx) = spec_ago now (int n * us))
   \<and> (\<forall>(sfx, us)\<in>set relative_forms.
        google_parse_date now (decimal n @ sfx) = spec_ago now (int n * us))
   \<and> linkedin_parse_relative_date now ''today'' = Some (Naive now)
   \<and> linkedin_parse_relative_date now ''just now'' = Some (Naive now)
   \<and> google_parse_date now ''today'' = Some (Naive now)
   \<and> google_parse_date now ''just now'' = Some (Naive now)
   \<and> google_parse_date now ''yesterday'' = spec_ago now us_per_day"
proof (intro impI conjI)
  assume "0 \<le> now \<and> now < datetime_max"
  then have now: "0 \<le> now" "now < datetime_max" by simp_all
  show "\<forall>(sfx, us)\<in>set (hour_forms @ relative_forms).
        linkedin_parse_relative_date now (decimal n @ sfx) = spec_ago now (int n * us)"
    by (simp add: hour_forms_def relative_forms_def linkedin_instances[OF now])
  show "\<forall>(sfx, us)\<in>set relative_forms.
        google_parse_date now (decimal n @ sfx) = spec_ago now (int n * us)"
    by (simp add: relative_forms_def google_instances[OF now])
  show "google_parse_date now ''yesterday'' = spec_ago now us_per_day"
    by (rule google_yesterday[OF now])
qed (rule keyword_phrases)+

theorem relative_date_parsers_witness:
  "linkedin_parse_relative_date (100 * us_per_day) ''12 days ago''
     = Some (Naive (88 * us_per_day))
   \<and> google_parse_date (100 * us_per_day) ''2 weeks ago'' = Some (Naive (86 * us_per_day))"
proof -
  have now: "0 \<le> 100 * us_per_day \<and> 100 * us_per_day < datetime_max"
    by (simp add: us_per_day_def datetime_max_def)
  have forms: "('' days ago'', us_per_day) \<in> set (hour_forms @ relative_forms)"
    "('' weeks ago'', 7 * us_per_day) \<in> set relative_forms"
    by (simp_all add: relative_forms_def)
  have dec: "decimal 12 = ''12''" "decimal 2 = ''2''" by code_simp+
  from relative_date_parsers[of "100 * us_per_day" 12] now forms(1)
  have "linkedin_parse_relative_date (100 * us_per_day) (decimal 12 @ '' days ago'')
      = spec_ago (100 * us_per_day) (int 12 * us_per_day)"
    by blast
  moreover from relative_date_parsers[of "100 * us_per_day" 2] now forms(2)
  have "google_parse_date (100 * us_per_day) (decimal 2 @ '' weeks ago'')
      = spec_ago (100 * us_per_day) (int 2 * (7 * us_per_day))"
    by blast
  ultimately show ?thesis
    by (simp add: dec spec_ago_def us_per_day_def)
qed

end
